theory Spec2Isabelle
  imports Main "HOL-Library.Word"
begin

section \<open>JavaScript values used by the embedding\<close>

text \<open>
  A JavaScript string is a sequence of 16-bit code units.  Literals of the source are
  written with \<open>js\<close>, which maps every (ASCII) character to its code unit.
\<close>

type_synonym jschar = "16 word"
type_synonym jsstring = "jschar list"

definition js :: "string \<Rightarrow> jsstring" where
  "js s = map of_char s"

text \<open>
  A thrown value.  \<open>Error m\<close> is an error object whose \<open>message\<close> property is \<open>m\<close>
  (\<open>None\<close> when it has none); \<open>TypeError\<close> is what the runtime throws on a property
  access on \<open>undefined\<close> or on a call of something that is no function, and
  \<open>SyntaxError\<close> what \<open>new RegExp\<close> throws on a malformed pattern.
\<close>

datatype js_error = Error "jsstring option" | TypeError | SyntaxError

text \<open>Arbitrary JSON-serializable data (metadata, shoebox values, query, body).\<close>

datatype json =
    JNull
  | JBool bool
  | JNum int
  | JStr jsstring
  | JArr "json list"
  | JObj "(jsstring \<times> json) list"

text \<open>The decimal digits of a number, as string concatenation writes an integer.\<close>

function decimal :: "nat \<Rightarrow> jsstring" where
  "decimal n = (if n < 10 then [48 + of_nat n] else decimal (n div 10) @ [48 + of_nat (n mod 10)])"
  by pat_completeness auto
termination
  by (relation "measure id") auto

text \<open>
  \<open>Object.assign({}, source)\<close>: a new object with the own enumerable properties of the
  source, which are the properties of an object, the indexed elements of an array and
  the indexed characters of a string; \<open>null\<close>, \<open>undefined\<close>, a number and a boolean
  have none.
\<close>

fun Object_assign :: "json \<Rightarrow> json" where
  "Object_assign (JObj properties) = JObj properties"
| "Object_assign (JArr elements) =
     JObj (zip (map decimal [0 ..< length elements]) elements)"
| "Object_assign (JStr s) =
     JObj (zip (map decimal [0 ..< length s]) (map (\<lambda>c. JStr [c]) s))"
| "Object_assign other = JObj []"

text \<open>\<open>s.startsWith(p)\<close>, used to locate a literal inside a string.\<close>

definition starts_with :: "'a list \<Rightarrow> 'a list \<Rightarrow> bool" where
  "starts_with p s = (take (length p) s = p)"

text \<open>\<open>s.includes(p)\<close>: some suffix of \<open>s\<close> starts with \<open>p\<close>.\<close>

fun str_includes :: "'a list \<Rightarrow> 'a list \<Rightarrow> bool" where
  "str_includes p [] = (p = [])"
| "str_includes p (c # cs) = (starts_with p (c # cs) \<or> str_includes p cs)"

text \<open>
  \<open>String.prototype.split\<close> with a string separator: the string is cut at every
  occurrence of the separator, found from left to right without overlap; \<open>cur\<close> holds
  the code units of the piece being read, in reverse.  With the empty separator the
  built-in cuts between all code units; the source only ever passes a non-empty one.
\<close>

function split_go :: "'a list \<Rightarrow> 'a list \<Rightarrow> 'a list \<Rightarrow> 'a list list" where
  "split_go sep cur [] = [rev cur]"
| "split_go sep cur (c # cs) =
     (if sep \<noteq> [] \<and> starts_with sep (c # cs)
      then rev cur # split_go sep [] (drop (length sep) (c # cs))
      else split_go sep (c # cur) cs)"
  by pat_completeness auto
termination
  by (relation "measure (\<lambda>(sep, cur, s). length s)") auto

definition split :: "'a list \<Rightarrow> 'a list \<Rightarrow> 'a list list" where
  "split sep s = (if sep = [] then map (\<lambda>c. [c]) s else split_go sep [] s)"

section \<open>The request, the response and the rendered result\<close>

subsection \<open>Headers\<close>

text \<open>
  Modelled from the spec: \<open>FastBootHeaders\<close> (fastboot-headers.js is not among the
  sources), a mapping from header names to values with case-insensitive keys and a
  lookup \<open>get\<close>; a header that is not there is looked up as \<open>null\<close>.  The names are
  kept in lower case.
\<close>

type_synonym headers = "(jsstring \<times> jsstring) list"

definition lower_char :: "jschar \<Rightarrow> jschar" where
  "lower_char c = (if 65 \<le> c \<and> c \<le> 90 then c + 32 else c)"

definition toLowerCase :: "jsstring \<Rightarrow> jsstring" where
  "toLowerCase s = map lower_char s"

definition new_FastBootHeaders :: "headers option \<Rightarrow> headers" where
  "new_FastBootHeaders raw =
     (case raw of None \<Rightarrow> [] | Some hs \<Rightarrow> map (\<lambda>(k, v). (toLowerCase k, v)) hs)"

definition headers_get :: "headers \<Rightarrow> jsstring \<Rightarrow> jsstring option" where
  "headers_get hs name = map_of hs (toLowerCase name)"

text \<open>\<open>String(host)\<close> of a looked-up header, as string interpolation and \<open>RegExp.test\<close> do it.\<close>

definition to_string :: "jsstring option \<Rightarrow> jsstring" where
  "to_string v = (case v of None \<Rightarrow> js ''null'' | Some s \<Rightarrow> s)"

subsection \<open>fastboot-request.js\<close>

type_synonym cookies = "(jsstring \<times> jsstring) list"

text \<open>
  A request object as the constructor of \<open>FastBootRequest\<close> reads it; every property may
  be \<open>undefined\<close> (\<open>None\<close>).  The serialized form of a \<open>FastBootRequest\<close> is such an
  object too, and it alone carries \<open>hostWhitelist\<close>.
\<close>

record http_request =
  rq_hostWhitelist :: "jsstring list option"
  rq_protocol :: "jsstring option"
  rq_headers :: "headers option"
  rq_query :: "json option"
  rq_url :: "jsstring option"
  rq_method :: "jsstring option"
  rq_body :: "json option"
  rq_cookies :: "cookies option"

record fastboot_request =
  fr_hostWhitelist :: "jsstring list option"
  fr_protocol :: jsstring
  fr_headers :: headers
  fr_queryParams :: "json option"
  fr_path :: "jsstring option"
  fr_method :: "jsstring option"
  fr_body :: "json option"
  fr_cookies :: cookies

text \<open>
  \<open>FastBootRequest.extractCookies\<close>; \<open>cookie_parse\<close> is \<open>cookie.parse\<close> of the cookie
  package.  Reading \<open>request.headers.cookie\<close> is a TypeError without \<open>request.headers\<close>.
\<close>

definition extractCookies :: "(jsstring \<Rightarrow> cookies) \<Rightarrow> http_request \<Rightarrow> js_error + cookies" where
  "extractCookies cookie_parse request =
     (case rq_cookies request of
        Some cs \<Rightarrow> Inr cs
      | None \<Rightarrow>
          (case rq_headers request of
             None \<Rightarrow> Inl TypeError
           | Some hs \<Rightarrow>
               (case map_of hs (js ''cookie'') of
                  None \<Rightarrow> Inr []
                | Some c \<Rightarrow> if c \<noteq> [] then Inr (cookie_parse c) else Inr [])))"

definition new_FastBootRequest ::
  "(jsstring \<Rightarrow> cookies) \<Rightarrow> http_request \<Rightarrow> jsstring list option \<Rightarrow> js_error + fastboot_request" where
  "new_FastBootRequest cookie_parse request hostWhitelist =
     (case extractCookies cookie_parse request of
        Inl err \<Rightarrow> Inl err
      | Inr cs \<Rightarrow>
          Inr \<lparr>fr_hostWhitelist = hostWhitelist,
               fr_protocol =
                 (case rq_protocol request of None \<Rightarrow> js ''undefined'' | Some p \<Rightarrow> p) @ js '':'',
               fr_headers = new_FastBootHeaders (rq_headers request),
               fr_queryParams = rq_query request,
               fr_path = rq_url request,
               fr_method = rq_method request,
               fr_body = rq_body request,
               fr_cookies = cs\<rparr>)"

definition request_serialize :: "fastboot_request \<Rightarrow> http_request" where
  "request_serialize rq =
     \<lparr>rq_hostWhitelist = fr_hostWhitelist rq,
      rq_protocol = Some (fr_protocol rq),
      rq_headers = Some (fr_headers rq),
      rq_query = fr_queryParams rq,
      rq_url = fr_path rq,
      rq_method = fr_method rq,
      rq_body = fr_body rq,
      rq_cookies = Some (fr_cookies rq)\<rparr>"

text \<open>
  A whitelist entry that starts and ends with a slash (the entry \<open>/\<close> alone does both),
  and \<open>entry.slice(1, -1)\<close>.
\<close>

definition slash_delimited :: "jsstring \<Rightarrow> bool" where
  "slash_delimited entry = (entry \<noteq> [] \<and> hd entry = 47 \<and> last entry = 47)"

definition slice_1_m1 :: "jsstring \<Rightarrow> jsstring" where
  "slice_1_m1 entry = butlast (tl entry)"

text \<open>
  The callback of \<open>hostWhitelist.some\<close>.  \<open>RegExp\<close> stands for the built-in
  \<open>new RegExp(pattern)\<close>: \<open>None\<close> where it throws a SyntaxError, and otherwise the
  \<open>test\<close> of the compiled expression.
\<close>

definition entry_matches ::
  "(jsstring \<Rightarrow> (jsstring \<Rightarrow> bool) option) \<Rightarrow> jsstring option \<Rightarrow> jsstring \<Rightarrow> js_error + bool" where
  "entry_matches RegExp host entry =
     (if slash_delimited entry then
        (case RegExp (slice_1_m1 entry) of
           None \<Rightarrow> Inl SyntaxError
         | Some test \<Rightarrow> Inr (test (to_string host)))
      else Inr (Some entry = host))"

text \<open>\<open>Array.prototype.some\<close>: it stops at the first entry that matches, or that throws.\<close>

fun some_entry ::
  "(jsstring \<Rightarrow> (jsstring \<Rightarrow> bool) option) \<Rightarrow> jsstring option \<Rightarrow> jsstring list \<Rightarrow> js_error + bool" where
  "some_entry RegExp host [] = Inr False"
| "some_entry RegExp host (entry # entries) =
     (case entry_matches RegExp host entry of
        Inl err \<Rightarrow> Inl err
      | Inr matched \<Rightarrow> if matched then Inr True else some_entry RegExp host entries)"

definition no_whitelist_error :: js_error where
  "no_whitelist_error = Error (Some (js ''You must provide a hostWhitelist to retrieve the host''))"

definition host_mismatch_error :: "jsstring option \<Rightarrow> js_error" where
  "host_mismatch_error host =
     Error (Some (js ''The host header did not match a hostWhitelist entry. Host header: ''
                  @ to_string host))"

text \<open>\<open>FastBootRequest.host\<close>.\<close>

definition host ::
  "(jsstring \<Rightarrow> (jsstring \<Rightarrow> bool) option) \<Rightarrow> fastboot_request \<Rightarrow> js_error + jsstring option" where
  "host RegExp rq =
     (case fr_hostWhitelist rq of
        None \<Rightarrow> Inl no_whitelist_error
      | Some hostWhitelist \<Rightarrow>
          (let h = headers_get (fr_headers rq) (js ''host'') in
           case some_entry RegExp h hostWhitelist of
             Inl err \<Rightarrow> Inl err
           | Inr matchFound \<Rightarrow> if \<not> matchFound then Inl (host_mismatch_error h) else Inr h))"

subsection \<open>fastboot-response.js\<close>

text \<open>
  A response object as the constructor of \<open>FastbootResponse\<close> reads it (\<open>statusCode\<close>,
  \<open>_headers\<close>); the serialized form of a \<open>FastbootResponse\<close> is such an object with the
  properties \<open>headers\<close> and \<open>statusCode\<close>.
\<close>

record raw_response =
  rs_statusCode :: "int option"
  rs_u_headers :: "headers option"
  rs_headers :: "headers option"

definition empty_object :: raw_response where
  "empty_object = \<lparr>rs_statusCode = None, rs_u_headers = None, rs_headers = None\<rparr>"

text \<open>
  \<open>FastbootResponse\<close>: \<open>raw_statusCode\<close> is \<open>this._response.statusCode\<close>
  (\<open>None\<close> for \<open>undefined\<close>); the getter \<open>statusCode\<close> is
  \<open>this._response.statusCode || 200\<close>.
\<close>

record fastboot_response =
  raw_statusCode :: "int option"
  resp_headers :: headers

definition new_FastBootResponse :: "raw_response \<Rightarrow> fastboot_response" where
  "new_FastBootResponse response =
     \<lparr>raw_statusCode = rs_statusCode response,
      resp_headers = new_FastBootHeaders (rs_u_headers response)\<rparr>"

definition statusCode :: "fastboot_response \<Rightarrow> int" where
  "statusCode resp =
     (case raw_statusCode resp of None \<Rightarrow> 200 | Some c \<Rightarrow> if c = 0 then 200 else c)"

definition response_serialize :: "fastboot_response \<Rightarrow> raw_response" where
  "response_serialize resp =
     \<lparr>rs_statusCode = Some (statusCode resp), rs_u_headers = None,
      rs_headers = Some (resp_headers resp)\<rparr>"

subsection \<open>fastboot-info.js\<close>

type_synonym shoebox = "(jsstring \<times> json) list"

record info_options =
  o_hostWhitelist :: "jsstring list option"
  o_metadata :: "json option"

record fastboot_info =
  fi_options :: info_options
  fi_request :: "fastboot_request option"
  fi_response :: "fastboot_response option"
  fi_metadata :: "json option"
  fi_shoebox :: "shoebox option"

text \<open>
  The constructor of \<open>FastBootInfo\<close>, for an \<open>options\<close> object that is there.  The
  response is built in every case, from \<open>response || {}\<close>.
\<close>

definition new_FastBootInfo ::
  "(jsstring \<Rightarrow> cookies) \<Rightarrow> http_request option \<Rightarrow> raw_response option \<Rightarrow> info_options
     \<Rightarrow> shoebox option \<Rightarrow> js_error + fastboot_info" where
  "new_FastBootInfo cookie_parse request response options shoebox =
     (let hostWhitelist = o_hostWhitelist options;
          metadata = o_metadata options;
          info = \<lparr>fi_options = options, fi_request = None,
                  fi_response =
                    Some (new_FastBootResponse
                            (case response of None \<Rightarrow> empty_object | Some rs \<Rightarrow> rs)),
                  fi_metadata = metadata, fi_shoebox = shoebox\<rparr>
      in case request of
           None \<Rightarrow> Inr info
         | Some rq \<Rightarrow>
             (case new_FastBootRequest cookie_parse rq hostWhitelist of
                Inl err \<Rightarrow> Inl err
              | Inr fr \<Rightarrow> Inr (info\<lparr>fi_request := Some fr\<rparr>)))"

text \<open>\<open>FastBootInfo.serialize\<close>: the array of four entries, \<open>None\<close> for \<open>undefined\<close>.\<close>

definition serialize ::
  "fastboot_info \<Rightarrow> http_request option \<times> raw_response option \<times> info_options \<times> shoebox option" where
  "serialize info =
     ((case fi_request info of None \<Rightarrow> None | Some rq \<Rightarrow> Some (request_serialize rq)),
      (case fi_response info of None \<Rightarrow> None | Some rs \<Rightarrow> Some (response_serialize rs)),
      \<lparr>o_hostWhitelist =
         (case fi_request info of None \<Rightarrow> None | Some rq \<Rightarrow> fr_hostWhitelist rq),
       o_metadata = fi_metadata info\<rparr>,
      fi_shoebox info)"

text \<open>\<open>new FastBootInfo(...tuple)\<close>, the reconstruction from a serialized tuple.\<close>

definition reconstruct ::
  "(jsstring \<Rightarrow> cookies)
     \<Rightarrow> http_request option \<times> raw_response option \<times> info_options \<times> shoebox option
     \<Rightarrow> js_error + fastboot_info" where
  "reconstruct cookie_parse tuple =
     (case tuple of (request, response, options, shoebox) \<Rightarrow>
        new_FastBootInfo cookie_parse request response options shoebox)"

subsection \<open>result.js\<close>

text \<open>
  The \<open>Result\<close> object: the three cached strings (\<open>None\<close> before the first harvest),
  \<open>_fastbootInfo\<close> (\<open>None\<close> on a result built without it, as \<open>EmberApp.visit\<close> does),
  and the flags.
\<close>

record result =
  r_html :: "jsstring option"
  r_head :: "jsstring option"
  r_body :: "jsstring option"
  r_fastbootInfo :: "fastboot_info option"
  r_instanceDestroyed :: bool
  r_finalized :: bool
  r_error :: "js_error option"

definition new_Result :: "fastboot_info option \<Rightarrow> result" where
  "new_Result info =
     \<lparr>r_html = None, r_head = None, r_body = None, r_fastbootInfo = info,
      r_instanceDestroyed = False, r_finalized = False, r_error = None\<rparr>"

definition placeholder_document :: jsstring where
  "placeholder_document =
     js ''<html><head></head><body><!-- EMBER_CLI_FASTBOOT_BODY --></body></html>''"

definition redirect_document :: "jsstring \<Rightarrow> jsstring" where
  \<open>redirect_document location =
     js ''<html><head></head><body><h1>Redirecting to <a href="'' @ location @ js ''">''
       @ location @ js ''</a></h1></body></html>''\<close>

text \<open>
  \<open>Result.html\<close>.  It returns \<open>this._html\<close> and the result with the cached strings
  it has overwritten.  \<open>if (location)\<close> holds for a non-empty string.
\<close>

definition html :: "result \<Rightarrow> js_error + (jsstring option \<times> result)" where
  "html r =
     (case r_fastbootInfo r of
        None \<Rightarrow> Inl TypeError
      | Some info \<Rightarrow>
        (case fi_response info of
          None \<Rightarrow> Inr (r_html r, r)
        | Some response \<Rightarrow>
          (let code = statusCode response in
           if code = 204 then
             (let r' = r\<lparr>r_html := Some [], r_head := Some [], r_body := Some []\<rparr>
              in Inr (r_html r', r'))
           else if 300 \<le> code \<and> code \<le> 399 then
             (let location = headers_get (resp_headers response) (js ''location'');
                  r' = r\<lparr>r_html := Some placeholder_document,
                         r_head := Some [], r_body := Some []\<rparr>;
                  r'' = (case location of
                           None \<Rightarrow> r'
                         | Some l \<Rightarrow>
                             if l \<noteq> [] then r'\<lparr>r_html := Some (redirect_document l)\<rparr>
                             else r')
              in Inr (r_html r'', r''))
           else Inr (r_html r, r))))"

text \<open>\<open>Result.domContents\<close>: the pair \<open>{head, body}\<close> of the cached strings.\<close>

definition domContents :: "result \<Rightarrow> jsstring option \<times> jsstring option" where
  "domContents r = (r_head r, r_body r)"

definition SHOEBOX_TAG_PATTERN :: jsstring where
  \<open>SHOEBOX_TAG_PATTERN = js ''<script type="fastboot/shoebox"''\<close>

definition HEAD_CLOSE :: jsstring where
  "HEAD_CLOSE = js ''</head>''"

text \<open>
  \<open>html.match(HTML_HEAD_REGEX)\<close> with \<open>HTML_HEAD_REGEX = /^([\s\S]*<\/head>)([\s\S]*)/\<close>.
  The first group is greedy, so it ends with the last \<open></head>\<close> of the string and the
  second group is everything after it; without any \<open></head>\<close> the match is \<open>null\<close>.
\<close>

fun match_head :: "jsstring \<Rightarrow> (jsstring \<times> jsstring) option" where
  "match_head [] = None"
| "match_head (c # cs) =
     (case match_head cs of
        Some (h, b) \<Rightarrow> Some (c # h, b)
      | None \<Rightarrow>
          if starts_with HEAD_CLOSE (c # cs)
          then Some (HEAD_CLOSE, drop (length HEAD_CLOSE) (c # cs))
          else None)"

definition chunks_error :: js_error where
  "chunks_error = Error (Some (js
     ''Could not idenfity head and body of the document! Make sure the document is well formed.''))"

text \<open>
  \<open>Result.chunks\<close> on the cached document \<open>this._html\<close> (\<open>None\<close> while nothing has been
  harvested, where \<open>html.match\<close> is a TypeError).  A successful match always has three
  entries, so the test \<open>docParts.length === 1\<close> never holds.  \<open>split\<close> never
  returns an empty array, so \<open>bodyParts[0]\<close> is always a string.
\<close>

definition chunks :: "jsstring option \<Rightarrow> js_error + jsstring list" where
  "chunks cached =
     (case cached of
        None \<Rightarrow> Inl TypeError
      | Some doc \<Rightarrow>
          (case match_head doc of
             None \<Rightarrow> Inr [doc]
           | Some (head, body) \<Rightarrow>
               if head = [] \<or> body = [] then Inl chunks_error
               else
                 (let bodyParts = split SHOEBOX_TAG_PATTERN body;
                      plainBody = hd bodyParts;
                      shoeboxes = tl bodyParts
                  in Inr ([head, plainBody] @ map (\<lambda>shoebox. SHOEBOX_TAG_PATTERN @ shoebox) shoeboxes))))"

definition PAGE_CLOSED_Target :: jsstring where
  "PAGE_CLOSED_Target = js ''Target closed.''"

definition PAGE_CLOSED_Session :: jsstring where
  "PAGE_CLOSED_Session = js ''Session closed.''"

text \<open>\<open>message.match(/(Target|Session) closed\./)\<close>: the pattern is not anchored.\<close>

definition closed_match :: "jsstring \<Rightarrow> bool" where
  "closed_match m = (str_includes PAGE_CLOSED_Target m \<or> str_includes PAGE_CLOSED_Session m)"

text \<open>
  The test \<open>err.message && !err.message.match(/(Target|Session) closed\./)\<close> of
  \<open>tryWithPageAwareness\<close>, under which the error is thrown again.  The messages of the
  runtime's own \<open>TypeError\<close> and \<open>SyntaxError\<close> are engine text, which is not empty and
  does not speak of a closed target or session.
\<close>

fun rethrown :: "js_error \<Rightarrow> bool" where
  "rethrown (Error None) = False"
| "rethrown (Error (Some m)) = (m \<noteq> [] \<and> \<not> closed_match m)"
| "rethrown TypeError = True"
| "rethrown SyntaxError = True"

text \<open>
  \<open>tryWithPageAwareness(callback)\<close>, on the outcome of awaiting the callback; \<open>None\<close>
  is the \<open>undefined\<close> the function returns after it has caught an error.
\<close>

definition tryWithPageAwareness :: "js_error + 'a \<Rightarrow> js_error + 'a option" where
  "tryWithPageAwareness outcome =
     (case outcome of
        Inr v \<Rightarrow> Inr (Some v)
      | Inl err \<Rightarrow> if rethrown err then Inl err else Inr None)"

text \<open>What the page returns to \<open>_reflectContents\<close>: \<open>[html, head, body]\<close>.\<close>

record harvest =
  h_html :: jsstring
  h_head :: jsstring
  h_body :: jsstring

text \<open>
  \<open>Result._reflectContents\<close>, on the outcome of its \<open>page.evaluate\<close>: the three cached
  strings are stored when the page has answered.
\<close>

definition reflectContents :: "result \<Rightarrow> js_error + harvest \<Rightarrow> js_error + result" where
  "reflectContents r page_harvest =
     (case page_harvest of
        Inl err \<Rightarrow> Inl err
      | Inr h \<Rightarrow> Inr (r\<lparr>r_html := Some (h_html h), r_head := Some (h_head h),
                          r_body := Some (h_body h)\<rparr>))"

text \<open>
  \<open>Result.setContent\<close>, on the outcomes of \<open>page.setContent\<close> and of the harvest after
  it.  The method returns \<open>undefined\<close> in every case that does not throw, so the model
  returns the result object only.
\<close>

definition setContent :: "result \<Rightarrow> js_error + unit \<Rightarrow> js_error + harvest \<Rightarrow> js_error + result" where
  "setContent r page_setContent page_harvest =
     (if r_instanceDestroyed r then Inr r
      else
        (case tryWithPageAwareness
                (case page_setContent of
                   Inl err \<Rightarrow> Inl err
                 | Inr u \<Rightarrow> reflectContents r page_harvest) of
           Inl err \<Rightarrow> Inl err
         | Inr None \<Rightarrow> Inr r
         | Inr (Some r') \<Rightarrow> Inr r'))"

text \<open>
  \<open>Result.evaluate\<close>, on the outcomes of \<open>page.evaluate\<close> and of the harvest after it:
  the value of the evaluation, or \<open>undefined\<close> (\<open>None\<close>), and the result object.
\<close>

definition evaluate ::
  "result \<Rightarrow> js_error + 'v \<Rightarrow> js_error + harvest \<Rightarrow> js_error + ('v option \<times> result)" where
  "evaluate r page_evaluate page_harvest =
     (if r_instanceDestroyed r then Inr (None, r)
      else
        (case tryWithPageAwareness
                (case page_evaluate of
                   Inl err \<Rightarrow> Inl err
                 | Inr evalResult \<Rightarrow>
                     (case reflectContents r page_harvest of
                        Inl err \<Rightarrow> Inl err
                      | Inr r' \<Rightarrow> Inr (evalResult, r'))) of
           Inl err \<Rightarrow> Inl err
         | Inr None \<Rightarrow> Inr (None, r)
         | Inr (Some (evalResult, r')) \<Rightarrow> Inr (Some evalResult, r')))"

text \<open>An error ``whose message indicates that the surface or its session was closed''.\<close>

fun indicates_closed :: "js_error \<Rightarrow> bool" where
  "indicates_closed (Error (Some m)) = closed_match m"
| "indicates_closed e = False"

text \<open>An error without a message, or with the empty string as its message.\<close>

fun no_message :: "js_error \<Rightarrow> bool" where
  "no_message (Error None) = True"
| "no_message (Error (Some m)) = (m = [])"
| "no_message e = False"

section \<open>ember-app.js: the application instance\<close>

subsection \<open>The page and what is asked of it\<close>

type_synonym globals = "(jsstring \<times> json) list"

type_synonym serialized =
  "http_request option \<times> raw_response option \<times> info_options \<times> shoebox option"

record boot_options =
  bo_location :: jsstring
  bo_isBrowser :: bool
  bo_shouldRender :: bool
  bo_renderMode :: "jsstring option"

text \<open>The functions and source texts that the instance has the page evaluate.\<close>

datatype script =
    SandboxGlobals globals
  | InitializeAppEnvironment jsstring json
  | SourceText jsstring
  | RunAppInstance jsstring boot_options serialized
  | ShoeboxScript jsstring jsstring
  | RemoveEmberApplication

text \<open>The awaited calls on the page, by the place of the source that makes them.\<close>

datatype page_call =
    Call_setContent
  | Call_clearPageStorage
  | Call_sandboxGlobals
  | Call_initializeAppEnvironment
  | Call_vendorFile jsstring
  | Call_appFile jsstring
  | Call_bundle
  | Call_runAppInstance
  | Call_shoebox jsstring
  | Call_finalize

text \<open>
  The moments at which the deadline timer can fire: just before a call reaches the
  page, or while the call is in flight, after the page has started on it.
\<close>

datatype moment = Before page_call | In_flight page_call

text \<open>
  The browser page, as far as the claims look into it: the properties that scripts have
  assigned on \<open>window\<close> (a later assignment is found first), the markup last given
  to \<open>page.setContent\<close> (empty after a navigation to the listener), the markup that
  \<open>insertAdjacentHTML('beforeend', _)\<close> has put at the end of \<open>document.body\<close>, in
  order, and the log of the scripts submitted for evaluation, each with the \<open>window\<close>
  properties it has found.  \<open>page.setContent\<close> writes a new document into the same
  window; \<open>page.reload\<close> starts a new document with a new \<open>window\<close>.
\<close>

record page =
  pg_content :: jsstring
  pg_window :: globals
  pg_beforeend :: "jsstring list"
  pg_log :: "(script \<times> globals) list"

definition shoebox_element :: "jsstring \<Rightarrow> jsstring \<Rightarrow> jsstring" where
  \<open>shoebox_element key textValue =
     js ''<script type="fastboot/shoebox" id="shoebox-'' @ key @ js ''">'' @ textValue
       @ js ''</script>''\<close>

fun run_script :: "script \<Rightarrow> page \<Rightarrow> page" where
  "run_script (SandboxGlobals g) pg = pg\<lparr>pg_window := g @ pg_window pg\<rparr>"
| "run_script (ShoeboxScript key textValue) pg =
     pg\<lparr>pg_beforeend := pg_beforeend pg @ [shoebox_element key textValue]\<rparr>"
| "run_script other pg = pg"

definition page_setContent :: "jsstring \<Rightarrow> page \<Rightarrow> page" where
  "page_setContent markup pg = pg\<lparr>pg_content := markup, pg_beforeend := []\<rparr>"

definition page_reload :: "page \<Rightarrow> page" where
  "page_reload pg = pg\<lparr>pg_content := [], pg_window := [], pg_beforeend := []\<rparr>"

text \<open>
  What the surroundings of one visit do: for every call on the page the error it
  rejects with (if it does) and the outcome of the harvest that follows it, the tuple
  that the application returns from the visit inside the page, the moment at which
  the deadline timer fires (if it fires before the visit completes), the error of the
  reload in the timer (if it fails), and the functions of the platform:
  \<open>fs.readFileSync\<close>, the build of the bundle, \<open>cookie.parse\<close>, \<open>JSON.stringify\<close> and
  the flag \<open>process.env.EXPERIMENTAL_RENDER_MODE_SERIALIZE\<close>.
\<close>

record env =
  env_rejects :: "page_call \<Rightarrow> js_error option"
  env_harvest :: "page_call \<Rightarrow> js_error + harvest"
  env_app_returns :: serialized
  env_timer_fires :: "moment option"
  env_reload_rejects :: "js_error option"
  env_readFileSync :: "jsstring \<Rightarrow> js_error + jsstring"
  env_bundle :: "js_error + jsstring"
  env_cookie_parse :: "jsstring \<Rightarrow> cookies"
  env_JSON_stringify :: "json \<Rightarrow> jsstring"
  env_render_mode_serialize :: bool

subsection \<open>EmberApp\<close>

text \<open>
  The instance.  Its constructor sets \<open>_hasInitialized\<close> (\<open>ea_u_hasInitialized\<close>);
  \<open>_visitRoute\<close> reads and sets \<open>hasInitialized\<close> (\<open>ea_hasInitialized\<close>), which
  is \<open>undefined\<close>, hence false, on a new instance.
\<close>

record ember_app =
  ea_appFilePaths :: "jsstring list"
  ea_vendorFilePaths :: "jsstring list"
  ea_hostWhitelist :: "jsstring list option"
  ea_config :: json
  ea_appName :: jsstring
  ea_sandboxGlobals :: globals
  ea_page :: page
  ea_html :: jsstring
  ea_u_hasInitialized :: bool
  ea_hasInitialized :: bool
  ea_u_bundle :: "jsstring option"

record app_config =
  ac_appFiles :: "jsstring list"
  ac_vendorFiles :: "jsstring list"
  ac_hostWhitelist :: "jsstring list option"
  ac_config :: json
  ac_appName :: jsstring
  ac_htmlFile :: jsstring

definition new_EmberApp ::
  "env \<Rightarrow> app_config \<Rightarrow> globals option \<Rightarrow> page \<Rightarrow> js_error + ember_app" where
  "new_EmberApp e config sandboxGlobals pg =
     (case env_readFileSync e (ac_htmlFile config) of
        Inl err \<Rightarrow> Inl err
      | Inr text \<Rightarrow>
          Inr \<lparr>ea_appFilePaths = ac_appFiles config,
               ea_vendorFilePaths = ac_vendorFiles config,
               ea_hostWhitelist = ac_hostWhitelist config,
               ea_config = Object_assign (ac_config config),
               ea_appName = ac_appName config,
               ea_sandboxGlobals = (case sandboxGlobals of None \<Rightarrow> [] | Some g \<Rightarrow> g),
               ea_page = pg,
               ea_html = text,
               ea_u_hasInitialized = False,
               ea_hasInitialized = False,
               ea_u_bundle = None\<rparr>)"

text \<open>The options of \<open>visit\<close>; \<open>vo_destroyAppInstanceInMs\<close> is the value of \<open>parseInt\<close>,
  \<open>None\<close> for \<open>NaN\<close>.\<close>

record visit_options =
  vo_request :: "http_request option"
  vo_response :: "raw_response option"
  vo_html :: "jsstring option"
  vo_disableShoebox :: bool
  vo_destroyAppInstanceInMs :: "int option"
  vo_shouldRender :: "bool option"
  vo_metadata :: "json option"
  vo_resilient :: "bool option"

text \<open>
  The state of one \<open>visit\<close>: the instance, the result object, the local \<open>didDestroy\<close>,
  and the delay of the timer while it is armed.
\<close>

record vstate =
  st_app :: ember_app
  st_result :: result
  st_didDestroy :: bool
  st_timer :: "int option"

definition and_then ::
  "(js_error + 'a) \<times> 's \<Rightarrow> ('a \<Rightarrow> 's \<Rightarrow> (js_error + 'b) \<times> 's) \<Rightarrow> (js_error + 'b) \<times> 's" where
  "and_then m f = (case m of (Inl err, s) \<Rightarrow> (Inl err, s) | (Inr a, s) \<Rightarrow> f a s)"

text \<open>
  The error of the forced destruction.  The delay is written in decimal digits, which
  is how string concatenation writes an integral number below \<open>1e21\<close>; from there on
  JavaScript writes an exponent, and such a delay is outside the model.
\<close>

definition destroyed_error :: "int \<Rightarrow> js_error" where
  "destroyed_error ms =
     Error (Some (js ''App instance was forcefully destroyed in '' @ decimal (nat ms) @ js ''ms''))"

definition BROWSER_DISCONNECTED :: jsstring where
  "BROWSER_DISCONNECTED = js ''Navigation failed because browser has disconnected''"

definition CONTEXT_DESTROYED :: jsstring where
  "CONTEXT_DESTROYED = js ''Execution context was destroyed''"

text \<open>
  The callback of the timer in \<open>visit\<close>.  An error of the reload that has no message
  makes \<open>error.message.match\<close> throw inside the callback, which ends it there.  The
  callback sets \<open>didDestroy\<close> at once and assigns \<open>result.error\<close> and
  \<open>_hasInitialized\<close> when the reload has settled; the model takes the reload to
  settle before the visit goes on, so the callback is one step.
\<close>

definition timer_callback :: "env \<Rightarrow> int \<Rightarrow> vstate \<Rightarrow> vstate" where
  "timer_callback e ms st =
     (let st1 = st\<lparr>st_didDestroy := True\<rparr> in
      case env_reload_rejects e of
        None \<Rightarrow>
          st1\<lparr>st_app := (st_app st1)\<lparr>ea_page := page_reload (ea_page (st_app st1)),
                                      ea_u_hasInitialized := False\<rparr>,
               st_result := (st_result st1)\<lparr>r_error := Some (destroyed_error ms)\<rparr>\<rparr>
      | Some (Error None) \<Rightarrow> st1
      | Some (Error (Some m)) \<Rightarrow>
          (if \<not> str_includes BROWSER_DISCONNECTED m
           then st1\<lparr>st_app := (st_app st1)\<lparr>ea_u_hasInitialized := False\<rparr>,
                    st_result := (st_result st1)\<lparr>r_error := Some (Error (Some m))\<rparr>\<rparr>
           else st1\<lparr>st_app := (st_app st1)\<lparr>ea_u_hasInitialized := False\<rparr>\<rparr>)
      | Some err \<Rightarrow>
          st1\<lparr>st_app := (st_app st1)\<lparr>ea_u_hasInitialized := False\<rparr>,
               st_result := (st_result st1)\<lparr>r_error := Some err\<rparr>\<rparr>)"

text \<open>The timer fires at the given moment, if it is armed and due there.\<close>

definition timer_at :: "env \<Rightarrow> moment \<Rightarrow> vstate \<Rightarrow> vstate" where
  "timer_at e m st =
     (case st_timer st of
        None \<Rightarrow> st
      | Some ms \<Rightarrow>
          if env_timer_fires e = Some m \<and> \<not> st_didDestroy st
          then timer_callback e ms st else st)"

definition submit :: "script \<Rightarrow> bool \<Rightarrow> page \<Rightarrow> page" where
  "submit sc rejected pg =
     (let logged = pg\<lparr>pg_log := pg_log pg @ [(sc, pg_window pg)]\<rparr>
      in if rejected then logged else run_script sc logged)"

definition submitted :: "script \<Rightarrow> bool \<Rightarrow> vstate \<Rightarrow> vstate" where
  "submitted sc rejected st =
     st\<lparr>st_app := (st_app st)\<lparr>ea_page := submit sc rejected (ea_page (st_app st))\<rparr>\<rparr>"

text \<open>
  \<open>result.evaluate(script, ...)\<close> inside a visit: the page runs the script unless it
  rejects the call, and \<open>Result.evaluate\<close> works on the outcome.
\<close>

definition result_evaluate ::
  "env \<Rightarrow> page_call \<Rightarrow> script \<Rightarrow> 'v \<Rightarrow> vstate \<Rightarrow> (js_error + 'v option) \<times> vstate" where
  "result_evaluate e call sc val st0 =
     (let st = timer_at e (Before call) st0 in
      if r_instanceDestroyed (st_result st) then (Inr None, st)
      else
        (let st' = timer_at e (In_flight call)
                     (submitted sc (env_rejects e call \<noteq> None) st);
             outcome = (case env_rejects e call of Some err \<Rightarrow> Inl err | None \<Rightarrow> Inr val)
         in case evaluate (st_result st') outcome (env_harvest e call) of
              Inl err \<Rightarrow> (Inl err, st')
            | Inr (v, r') \<Rightarrow> (Inr v, st'\<lparr>st_result := r'\<rparr>)))"

text \<open>\<open>result.setContent(html, ...)\<close> at the start of a visit.\<close>

definition result_setContent :: "env \<Rightarrow> jsstring \<Rightarrow> vstate \<Rightarrow> (js_error + unit) \<times> vstate" where
  "result_setContent e markup st =
     (if r_instanceDestroyed (st_result st) then (Inr (), st)
      else
        (let st' = (if env_rejects e Call_setContent \<noteq> None then st
                    else st\<lparr>st_app := (st_app st)
                             \<lparr>ea_page := page_setContent markup (ea_page (st_app st))\<rparr>\<rparr>);
             outcome = (case env_rejects e Call_setContent of
                          Some err \<Rightarrow> Inl err | None \<Rightarrow> Inr ())
         in case setContent (st_result st') outcome (env_harvest e Call_setContent) of
              Inl err \<Rightarrow> (Inl err, st')
            | Inr r' \<Rightarrow> (Inr (), st'\<lparr>st_result := r'\<rparr>)))"

text \<open>\<open>clearPageStorage(page)\<close>: one evaluation on the page itself.\<close>

definition clearPageStorage :: "env \<Rightarrow> vstate \<Rightarrow> (js_error + unit) \<times> vstate" where
  "clearPageStorage e st0 =
     (let st = timer_at e (In_flight Call_clearPageStorage)
                 (timer_at e (Before Call_clearPageStorage) st0) in
      case env_rejects e Call_clearPageStorage of
        Some err \<Rightarrow> (Inl err, st)
      | None \<Rightarrow> (Inr (), st))"

definition buildBootOptions :: "env \<Rightarrow> bool \<Rightarrow> boot_options" where
  "buildBootOptions e shouldRender =
     \<lparr>bo_location = js ''none'', bo_isBrowser = True, bo_shouldRender = shouldRender,
      bo_renderMode = (if env_render_mode_serialize e then Some (js ''serialize'') else None)\<rparr>"

definition initializeAppEnvironment :: "env \<Rightarrow> vstate \<Rightarrow> (js_error + unit) \<times> vstate" where
  "initializeAppEnvironment e st =
     and_then
       (result_evaluate e Call_initializeAppEnvironment
          (InitializeAppEnvironment (ea_appName (st_app st)) (ea_config (st_app st))) () st)
       (\<lambda>v st'. (Inr (), st'))"

text \<open>One loop of \<open>loadAppFiles\<close>: read each file and have the page evaluate its text.\<close>

fun evaluate_files ::
  "env \<Rightarrow> (jsstring \<Rightarrow> page_call) \<Rightarrow> jsstring list \<Rightarrow> vstate \<Rightarrow> (js_error + unit) \<times> vstate" where
  "evaluate_files e call [] st = (Inr (), st)"
| "evaluate_files e call (filePath # filePaths) st =
     (case env_readFileSync e filePath of
        Inl err \<Rightarrow> (Inl err, st)
      | Inr text \<Rightarrow>
          (case result_evaluate e (call filePath) (SourceText text) () st of
             (Inl err, st') \<Rightarrow> (Inl err, st')
           | (Inr v, st') \<Rightarrow> evaluate_files e call filePaths st'))"

definition loadAppFiles :: "env \<Rightarrow> vstate \<Rightarrow> (js_error + unit) \<times> vstate" where
  "loadAppFiles e st =
     and_then (evaluate_files e Call_vendorFile (ea_vendorFilePaths (st_app st)) st)
       (\<lambda>u st'. evaluate_files e Call_appFile (ea_appFilePaths (st_app st')) st')"

subsection \<open>The shoebox\<close>

definition backslash_u :: "string \<Rightarrow> jsstring" where
  "backslash_u hex = 92 # js (CHR ''u'' # hex)"

text \<open>The table \<open>JSON_ESCAPE\<close> and the character class of \<open>JSON_ESCAPE_REGEXP\<close>.\<close>

definition JSON_ESCAPE :: "(jschar \<times> jsstring) list" where
  "JSON_ESCAPE =
     [(38, backslash_u ''0026''),
      (62, backslash_u ''003e''),
      (60, backslash_u ''003c''),
      (0x2028, backslash_u ''2028''),
      (0x2029, backslash_u ''2029'')]"

definition JSON_ESCAPE_REGEXP :: "jschar \<Rightarrow> bool" where
  "JSON_ESCAPE_REGEXP c = (c = 0x2028 \<or> c = 0x2029 \<or> c = 38 \<or> c = 62 \<or> c = 60)"

text \<open>
  \<open>escapeJSONString\<close>: every code unit that the expression matches is replaced by its
  entry of the table (a missing entry would be written as \<open>undefined\<close>).
\<close>

fun escapeJSONString :: "jsstring \<Rightarrow> jsstring" where
  "escapeJSONString [] = []"
| "escapeJSONString (c # cs) =
     (if JSON_ESCAPE_REGEXP c
      then (case map_of JSON_ESCAPE c of Some r \<Rightarrow> r | None \<Rightarrow> js ''undefined'')
      else [c]) @ escapeJSONString cs"

text \<open>The loop of \<open>createShoebox\<close> over the keys of the shoebox, in iteration order.\<close>

fun createShoebox_loop :: "env \<Rightarrow> shoebox \<Rightarrow> vstate \<Rightarrow> (js_error + unit) \<times> vstate" where
  "createShoebox_loop e [] st = (Inr (), st)"
| "createShoebox_loop e ((key, val) # entries) st =
     (let textValue = escapeJSONString (env_JSON_stringify e val) in
      case result_evaluate e (Call_shoebox key) (ShoeboxScript key textValue) () st of
        (Inl err, st') \<Rightarrow> (Inl err, st')
      | (Inr v, st') \<Rightarrow> createShoebox_loop e entries st')"

definition createShoebox :: "env \<Rightarrow> fastboot_info \<Rightarrow> vstate \<Rightarrow> (js_error + unit) \<times> vstate" where
  "createShoebox e fastbootInfo st =
     (case fi_shoebox fastbootInfo of
        None \<Rightarrow> (Inr (), st)
      | Some shoebox \<Rightarrow> createShoebox_loop e shoebox st)"

subsection \<open>Visiting a route\<close>

definition finalized_twice_error :: js_error where
  "finalized_twice_error = Error (Some (js ''Results cannot be finalized more than once''))"

text \<open>
  \<open>Result._finalize\<close>.  Nothing sets \<open>this.instance\<close>, so \<open>_finalizeMetadata\<close> is not
  called.
\<close>

definition finalize :: "env \<Rightarrow> vstate \<Rightarrow> (js_error + unit) \<times> vstate" where
  "finalize e st =
     (if r_finalized (st_result st) then (Inl finalized_twice_error, st)
      else
        and_then (result_evaluate e Call_finalize RemoveEmberApplication () st)
          (\<lambda>v st'. (Inr (), st'\<lparr>st_result := (st_result st')\<lparr>r_finalized := True\<rparr>\<rparr>)))"

text \<open>\<open>runAppInstance\<close>: the page builds and visits the application and returns the
  serialized info.\<close>

definition runAppInstance ::
  "env \<Rightarrow> jsstring \<Rightarrow> boot_options \<Rightarrow> fastboot_info \<Rightarrow> vstate
     \<Rightarrow> (js_error + serialized option) \<times> vstate" where
  "runAppInstance e path bootOptions info st =
     result_evaluate e Call_runAppInstance (RunAppInstance path bootOptions (serialize info))
       (env_app_returns e) st"

text \<open>The default \<open>[{ headers: {} },{},{}]\<close> of \<open>returnedInfo\<close>.\<close>

definition default_returnedInfo :: serialized where
  "default_returnedInfo =
     (Some \<lparr>rq_hostWhitelist = None, rq_protocol = None, rq_headers = Some [],
            rq_query = None, rq_url = None, rq_method = None, rq_body = None,
            rq_cookies = None\<rparr>,
      Some empty_object,
      \<lparr>o_hostWhitelist = None, o_metadata = None\<rparr>,
      None)"

text \<open>\<open>this._bundle = await bundle()\<close>, for an instance that has no bundle yet.\<close>

definition build_bundle :: "env \<Rightarrow> vstate \<Rightarrow> (js_error + jsstring) \<times> vstate" where
  "build_bundle e st =
     (case env_bundle e of
        Inl err \<Rightarrow> (Inl err, st)
      | Inr b \<Rightarrow> (Inr b, st\<lparr>st_app := (st_app st)\<lparr>ea_u_bundle := Some b\<rparr>\<rparr>))"

text \<open>The block of \<open>_visitRoute\<close> that runs while \<open>this.hasInitialized\<close> is false.\<close>

definition boot :: "env \<Rightarrow> vstate \<Rightarrow> (js_error + unit) \<times> vstate" where
  "boot e st0 =
     (let st = st0\<lparr>st_app := (st_app st0)\<lparr>ea_hasInitialized := True\<rparr>\<rparr> in
      and_then
        (result_evaluate e Call_sandboxGlobals
           (SandboxGlobals (ea_sandboxGlobals (st_app st))) () st)
        (\<lambda>v st1.
           and_then (initializeAppEnvironment e st1)
             (\<lambda>u st2.
                and_then (loadAppFiles e st2)
                  (\<lambda>u st3.
                     and_then
                       (case ea_u_bundle (st_app st3) of
                          None \<Rightarrow> build_bundle e st3
                        | Some b \<Rightarrow> if b \<noteq> [] then (Inr b, st3) else build_bundle e st3)
                       (\<lambda>b st4.
                          and_then (result_evaluate e Call_bundle (SourceText b) () st4)
                            (\<lambda>v st5. (Inr (), st5)))))))"

text \<open>
  The part of \<open>_visitRoute\<close> after the boot block: run the application, rebuild the
  info from what it returned, write the shoebox, finalize, and throw the error of the
  run, if there was one.
\<close>

definition visit_after_boot ::
  "env \<Rightarrow> jsstring \<Rightarrow> fastboot_info \<Rightarrow> boot_options \<Rightarrow> bool \<Rightarrow> vstate
     \<Rightarrow> (js_error + unit) \<times> vstate" where
  "visit_after_boot e path info bootOptions disableShoebox st1 =
     (case runAppInstance e path bootOptions info st1 of (outcome, st2) \<Rightarrow>
        (let returnedInfo = (case outcome of Inr (Some t) \<Rightarrow> t | _ \<Rightarrow> default_returnedInfo);
             error = (case outcome of Inl err \<Rightarrow> Some err | Inr v \<Rightarrow> None)
         in case reconstruct (env_cookie_parse e) returnedInfo of
              Inl err \<Rightarrow> (Inl err, st2)
            | Inr fastbootInfo \<Rightarrow>
                (let st3 = st2\<lparr>st_result :=
                                 (st_result st2)\<lparr>r_fastbootInfo := Some fastbootInfo\<rparr>\<rparr>
                 in and_then
                      (if \<not> disableShoebox then createShoebox e fastbootInfo st3
                       else (Inr (), st3))
                      (\<lambda>u st4.
                         and_then (finalize e st4)
                           (\<lambda>u st5.
                              (case error of
                                 Some err \<Rightarrow> (Inl err, st5)
                               | None \<Rightarrow> (Inr (), st5)))))))"

text \<open>\<open>EmberApp._visitRoute\<close>.\<close>

definition visitRoute ::
  "env \<Rightarrow> jsstring \<Rightarrow> fastboot_info \<Rightarrow> boot_options \<Rightarrow> bool \<Rightarrow> vstate
     \<Rightarrow> (js_error + unit) \<times> vstate" where
  "visitRoute e path info bootOptions disableShoebox st =
     and_then
       (if \<not> ea_hasInitialized (st_app st) then boot e st else (Inr (), st))
       (\<lambda>u st1. visit_after_boot e path info bootOptions disableShoebox st1)"

text \<open>
  The \<open>catch\<close> of \<open>visit\<close>: an error is put on the result unless the timer has fired
  and the message names a destroyed context or a disconnected browser.  After the
  timer has fired, reading the message of an error that has none throws.
\<close>

definition catch_visit_error :: "js_error \<Rightarrow> vstate \<Rightarrow> (js_error + unit) \<times> vstate" where
  "catch_visit_error error st =
     (let record_it = (Inr (), st\<lparr>st_result := (st_result st)\<lparr>r_error := Some error\<rparr>\<rparr>) in
      if st_didDestroy st then
        (case error of
           Error None \<Rightarrow> (Inl TypeError, st)
         | Error (Some m) \<Rightarrow>
             if str_includes CONTEXT_DESTROYED m \<or> str_includes BROWSER_DISCONNECTED m
             then (Inr (), st) else record_it
         | other \<Rightarrow> record_it)
      else record_it)"

text \<open>The body of the \<open>try\<close> of \<open>visit\<close>.\<close>

definition visit_try ::
  "env \<Rightarrow> jsstring \<Rightarrow> fastboot_info \<Rightarrow> boot_options \<Rightarrow> bool \<Rightarrow> vstate
     \<Rightarrow> (js_error + unit) \<times> vstate" where
  "visit_try e path info bootOptions disableShoebox st =
     and_then (clearPageStorage e st)
       (\<lambda>u st2. visitRoute e path info bootOptions disableShoebox st2)"

text \<open>
  \<open>EmberApp.visit\<close>: the promise it returns (rejected with an error, or resolved with
  the result) and the instance afterwards.
\<close>

definition visit ::
  "env \<Rightarrow> ember_app \<Rightarrow> jsstring \<Rightarrow> visit_options \<Rightarrow> (js_error + result) \<times> ember_app" where
  "visit e app path options =
     (let markup = (case vo_html options of
                      None \<Rightarrow> ea_html app
                    | Some h \<Rightarrow> if h \<noteq> [] then h else ea_html app);
          disableShoebox = vo_disableShoebox options;
          destroyAppInstanceInMs = vo_destroyAppInstanceInMs options;
          shouldRender = (case vo_shouldRender options of None \<Rightarrow> True | Some b \<Rightarrow> b);
          bootOptions = buildBootOptions e shouldRender
      in case new_FastBootInfo (env_cookie_parse e) (vo_request options) (vo_response options)
                \<lparr>o_hostWhitelist = ea_hostWhitelist app, o_metadata = vo_metadata options\<rparr> None of
           Inl err \<Rightarrow> (Inl err, app)
         | Inr info \<Rightarrow>
             (case result_setContent e markup
                     \<lparr>st_app = app, st_result = new_Result None, st_didDestroy = False,
                      st_timer = None\<rparr> of
                (Inl err, st) \<Rightarrow> (Inl err, st_app st)
              | (Inr u, st) \<Rightarrow>
                  (let st1 = st\<lparr>st_timer :=
                                  (case destroyAppInstanceInMs of
                                     None \<Rightarrow> None
                                   | Some ms \<Rightarrow> if ms > 0 then Some ms else None)\<rparr>
                   in case visit_try e path info bootOptions disableShoebox st1 of
                        (Inr u, st3) \<Rightarrow> (Inr (st_result st3), st_app st3)
                      | (Inl error, st3) \<Rightarrow>
                          (case catch_visit_error error st3 of
                             (Inl err, st4) \<Rightarrow> (Inl err, st_app st4)
                           | (Inr u, st4) \<Rightarrow> (Inr (st_result st4), st_app st4)))))"

section \<open>index.js: the coordinator\<close>

text \<open>
  What \<open>PowerBoot\<close> keeps: the configuration, the instance, the flag \<open>isWorking\<close> that
  the acquisition and the release use, and \<open>_shouldDestroyInstance\<close>.
\<close>

record powerboot =
  pb_resilient :: bool
  pb_appConfig :: app_config
  pb_sandboxGlobals :: "globals option"
  pb_instance :: "ember_app option"
  pb_isWorking :: bool
  pb_shouldDestroyInstance :: bool

text \<open>A promise: resolved, rejected, or never settled.\<close>

datatype 'a promise = Resolved 'a | Rejected js_error | Pending

text \<open>What the loop over \<open>_getAvailableOrNewInstance\<close> leaves in \<open>instance\<close>.\<close>

datatype acquired = An_instance ember_app | The_value_true

definition new_page :: page where
  "new_page = \<lparr>pg_content = [], pg_window = [], pg_beforeend = [], pg_log = []\<rparr>"

text \<open>
  The loop of \<open>visit\<close> over \<open>_getAvailableOrNewInstance\<close>, while no other visit is in
  flight.  Without an instance the generator yields the promise of a new one, on a new
  page (\<open>new_page_rejects\<close> is the error of \<open>newPage\<close> or \<open>goto\<close>, if any).  With
  an instance that is not working it sets \<open>isWorking\<close> and yields \<open>true\<close>.  With an
  instance that is working it yields \<open>null\<close> again and again.
\<close>

definition acquire ::
  "env \<Rightarrow> js_error option \<Rightarrow> powerboot \<Rightarrow> acquired promise \<times> powerboot" where
  "acquire e new_page_rejects pb =
     (case pb_instance pb of
        None \<Rightarrow>
          (case new_page_rejects of
             Some err \<Rightarrow> (Rejected err, pb)
           | None \<Rightarrow>
               (case new_EmberApp e (pb_appConfig pb) (pb_sandboxGlobals pb) new_page of
                  Inl err \<Rightarrow> (Rejected err, pb)
                | Inr app \<Rightarrow> (Resolved (An_instance app), pb\<lparr>pb_instance := Some app\<rparr>)))
      | Some app \<Rightarrow>
          if \<not> pb_isWorking pb then (Resolved The_value_true, pb\<lparr>pb_isWorking := True\<rparr>)
          else (Pending, pb))"

text \<open>\<open>_releaseInstance\<close>; \<open>destroy\<close> closes the page of the instance.\<close>

definition releaseInstance :: "powerboot \<Rightarrow> powerboot" where
  "releaseInstance pb =
     (if pb_shouldDestroyInstance pb
      then pb\<lparr>pb_instance := None, pb_shouldDestroyInstance := False, pb_isWorking := False\<rparr>
      else pb\<lparr>pb_isWorking := False\<rparr>)"

text \<open>
  \<open>PowerBoot.visit\<close>, once the listener and the browser are there.  Calling \<open>visit\<close> on
  the value \<open>true\<close> is a TypeError.
\<close>

definition PowerBoot_visit ::
  "env \<Rightarrow> js_error option \<Rightarrow> powerboot \<Rightarrow> jsstring \<Rightarrow> visit_options
     \<Rightarrow> result promise \<times> powerboot" where
  "PowerBoot_visit e new_page_rejects pb path options =
     (let resilient = (case vo_resilient options of None \<Rightarrow> pb_resilient pb | Some b \<Rightarrow> b)
      in case acquire e new_page_rejects pb of
           (Pending, pb1) \<Rightarrow> (Pending, pb1)
         | (Rejected err, pb1) \<Rightarrow> (Rejected err, pb1)
         | (Resolved The_value_true, pb1) \<Rightarrow> (Rejected TypeError, pb1)
         | (Resolved (An_instance app), pb1) \<Rightarrow>
             (case visit e app path options of
                (Inl err, app') \<Rightarrow> (Rejected err, pb1\<lparr>pb_instance := Some app'\<rparr>)
              | (Inr res, app') \<Rightarrow>
                  (let pb2 = releaseInstance (pb1\<lparr>pb_instance := Some app'\<rparr>)
                   in if \<not> resilient \<and> r_error res \<noteq> None
                      then (case r_error res of
                              Some err \<Rightarrow> (Rejected err, pb2)
                            | None \<Rightarrow> (Resolved res, pb2))
                      else (Resolved res, pb2))))"

section \<open>Notions of the claims, and sample inputs\<close>





text \<open>A \<open>cookie.parse\<close> that finds no cookie, and a request as a transport would pass it.\<close>

definition no_cookies :: "jsstring \<Rightarrow> cookies" where
  "no_cookies c = []"

definition plain_options :: info_options where
  "plain_options = \<lparr>o_hostWhitelist = None, o_metadata = None\<rparr>"

definition get_request :: http_request where
  "get_request =
     \<lparr>rq_hostWhitelist = None, rq_protocol = Some (js ''http''),
      rq_headers = Some [(js ''Host'', js ''example.com'')], rq_query = None,
      rq_url = Some (js ''/''), rq_method = Some (js ''GET''), rq_body = None,
      rq_cookies = None\<rparr>"

text \<open>
  Surroundings in which nothing fails: every file holds the text \<open>f\<close>, the page
  accepts every call, and the application returns a shoebox with two keys.
\<close>

definition sample_harvest :: harvest where
  "sample_harvest =
     \<lparr>h_html = js ''<html><head></head><body>ok</body></html>'', h_head = [],
      h_body = js ''ok''\<rparr>"

definition sample_shoebox :: shoebox where
  "sample_shoebox = [(js ''key1'', JStr (js ''a<b'')), (js ''key2'', JNum 7)]"

text \<open>A stand-in for \<open>JSON.stringify\<close>, right on the two values of the sample shoebox.\<close>

fun sample_stringify :: "json \<Rightarrow> jsstring" where
  "sample_stringify (JStr s) = 34 # s @ [34]"
| "sample_stringify (JNum n) = (if 0 \<le> n then decimal (nat n) else 45 # decimal (nat (- n)))"
| "sample_stringify other = js ''null''"

definition calm :: env where
  "calm =
     \<lparr>env_rejects = (\<lambda>call. None),
      env_harvest = (\<lambda>call. Inr sample_harvest),
      env_app_returns = (None, Some empty_object, plain_options, Some sample_shoebox),
      env_timer_fires = None,
      env_reload_rejects = None,
      env_readFileSync = (\<lambda>filePath. Inr (js ''f'')),
      env_bundle = Inr (js ''b''),
      env_cookie_parse = no_cookies,
      env_JSON_stringify = sample_stringify,
      env_render_mode_serialize = False\<rparr>"

text \<open>The application throws inside the page: the evaluation of the visit rejects.\<close>

definition failing :: env where
  "failing =
     calm\<lparr>env_rejects :=
            (\<lambda>call. if call = Call_runAppInstance then Some (Error (Some (js ''boom'')))
                     else None)\<rparr>"

text \<open>
  The deadline passes while the application is visited: the reload destroys the
  execution context, and the evaluation in flight rejects.
\<close>

definition overdue :: env where
  "overdue =
     calm\<lparr>env_rejects :=
            (\<lambda>call. if call = Call_runAppInstance
                     then Some (Error (Some (js ''Execution context was destroyed.'')))
                     else None),
          env_timer_fires := Some (In_flight Call_runAppInstance)\<rparr>"

definition sample_config :: app_config where
  "sample_config =
     \<lparr>ac_appFiles = [js ''app.js''], ac_vendorFiles = [js ''vendor.js''],
      ac_hostWhitelist = None, ac_config = JNull, ac_appName = js ''app'',
      ac_htmlFile = js ''index.html''\<rparr>"

definition sample_app :: ember_app where
  "sample_app =
     \<lparr>ea_appFilePaths = [js ''app.js''], ea_vendorFilePaths = [js ''vendor.js''],
      ea_hostWhitelist = None, ea_config = JObj [], ea_appName = js ''app'',
      ea_sandboxGlobals = [(js ''foo'', JNum 5)], ea_page = new_page, ea_html = js ''f'',
      ea_u_hasInitialized = False, ea_hasInitialized = False, ea_u_bundle = None\<rparr>"

definition sample_options :: "int option \<Rightarrow> visit_options" where
  "sample_options ms =
     \<lparr>vo_request = None, vo_response = None, vo_html = None, vo_disableShoebox = False,
      vo_destroyAppInstanceInMs = ms, vo_shouldRender = None, vo_metadata = None,
      vo_resilient = None\<rparr>"

definition sample_powerboot :: powerboot where
  "sample_powerboot =
     \<lparr>pb_resilient = False, pb_appConfig = sample_config,
      pb_sandboxGlobals = Some [(js ''foo'', JNum 5)], pb_instance = None,
      pb_isWorking = False, pb_shouldDestroyInstance = False\<rparr>"

text \<open>
  The escape form \<open>\uXXXX\<close> of a code unit, with its four hexadecimal digits in lower
  case, and the escaping that the claim describes.
\<close>

definition hex_digit :: "nat \<Rightarrow> jschar" where
  "hex_digit n = (if n < 10 then 48 + of_nat n else 87 + of_nat n)"

definition unicode_escape :: "jschar \<Rightarrow> jsstring" where
  "unicode_escape c =
     [92, 117, hex_digit (unat c div 4096 mod 16), hex_digit (unat c div 256 mod 16),
      hex_digit (unat c div 16 mod 16), hex_digit (unat c mod 16)]"

definition escaped :: "jsstring \<Rightarrow> jsstring" where
  "escaped s =
     concat (map (\<lambda>c. if c \<in> {38, 60, 62, 0x2028, 0x2029} then unicode_escape c else [c]) s)"

text \<open>A state of a visit in which no timer will fire.\<close>

definition no_timer :: "env \<Rightarrow> vstate \<Rightarrow> bool" where
  "no_timer e st = (st_timer st = None \<or> env_timer_fires e = None)"

definition info_with_response :: "fastboot_response \<Rightarrow> fastboot_info" where
  "info_with_response response =
     \<lparr>fi_options = \<lparr>o_hostWhitelist = None, o_metadata = None\<rparr>, fi_request = None,
      fi_response = Some response, fi_metadata = None, fi_shoebox = None\<rparr>"

definition sample_info :: fastboot_info where
  "sample_info = (info_with_response (new_FastBootResponse empty_object))
                   \<lparr>fi_shoebox := Some sample_shoebox\<rparr>"

definition sample_state :: vstate where
  "sample_state =
     \<lparr>st_app = sample_app, st_result = new_Result None, st_didDestroy = False,
      st_timer = None\<rparr>"

text \<open>
  The scripts of the boot-time injection: the sandbox globals, the environment shim, and
  the source texts (vendor files, app files, bundle).  Each boot starts with the sandbox
  globals.
\<close>

fun is_SandboxGlobals :: "script \<Rightarrow> bool" where
  "is_SandboxGlobals (SandboxGlobals g) = True"
| "is_SandboxGlobals other = False"

fun is_boot_script :: "script \<Rightarrow> bool" where
  "is_boot_script (SandboxGlobals g) = True"
| "is_boot_script (InitializeAppEnvironment appName config) = True"
| "is_boot_script (SourceText text) = True"
| "is_boot_script other = False"

fun is_ShoeboxScript :: "script \<Rightarrow> bool" where
  "is_ShoeboxScript (ShoeboxScript key textValue) = True"
| "is_ShoeboxScript other = False"

fun is_RunAppInstance :: "script \<Rightarrow> bool" where
  "is_RunAppInstance (RunAppInstance path bootOptions info) = True"
| "is_RunAppInstance other = False"

definition log_of :: "vstate \<Rightarrow> (script \<times> globals) list" where
  "log_of st = pg_log (ea_page (st_app st))"

definition window_of :: "vstate \<Rightarrow> globals" where
  "window_of st = pg_window (ea_page (st_app st))"

text \<open>How often the instance has started the boot-time injection on its page.\<close>

definition injections :: "ember_app \<Rightarrow> nat" where
  "injections app = length (filter (\<lambda>x. is_SandboxGlobals (fst x)) (pg_log (ea_page app)))"



text \<open>
  What a step of a visit leaves alone: the armed timer, the flag \<open>hasInitialized\<close>, the
  sandbox globals and the destroyed flag of the result; the log only grows, by scripts
  that satisfy \<open>P\<close> and are not the sandbox globals; and while no timer fires, \<open>window\<close>
  and \<open>didDestroy\<close> stay as they are and every logged script has found that \<open>window\<close>.
\<close>

definition frame :: "env \<Rightarrow> (script \<Rightarrow> bool) \<Rightarrow> vstate \<Rightarrow> vstate \<Rightarrow> bool" where
  "frame e P st st' \<longleftrightarrow>
     st_timer st' = st_timer st
     \<and> ea_hasInitialized (st_app st') = ea_hasInitialized (st_app st)
     \<and> ea_sandboxGlobals (st_app st') = ea_sandboxGlobals (st_app st)
     \<and> r_instanceDestroyed (st_result st') = r_instanceDestroyed (st_result st)
     \<and> (\<exists>xs. log_of st' = log_of st @ xs
            \<and> (\<forall>x \<in> set xs. P (fst x) \<and> \<not> is_SandboxGlobals (fst x))
            \<and> (no_timer e st \<longrightarrow> (\<forall>x \<in> set xs. snd x = window_of st)))
     \<and> (no_timer e st \<longrightarrow>
          window_of st' = window_of st \<and> st_didDestroy st' = st_didDestroy st)"

text \<open>A visit during which no deadline timer fires.\<close>

definition undisturbed :: "env \<Rightarrow> visit_options \<Rightarrow> bool" where
  "undisturbed e options =
     (env_timer_fires e = None
      \<or> (case vo_destroyAppInstanceInMs options of None \<Rightarrow> True | Some ms \<Rightarrow> \<not> ms > 0))"

text \<open>
  The elements that \<open>insertAdjacentHTML('beforeend', ...)\<close> has put at the end of the
  body, and a step of a visit that keeps them as they are while no timer fires, and
  that keeps the armed timer, the destroyed flag and the info of the result.
\<close>

definition body_of :: "vstate \<Rightarrow> jsstring list" where
  "body_of st = pg_beforeend (ea_page (st_app st))"

definition keeps_body :: "env \<Rightarrow> vstate \<Rightarrow> vstate \<Rightarrow> bool" where
  "keeps_body e st st' \<longleftrightarrow>
     st_timer st' = st_timer st
     \<and> r_instanceDestroyed (st_result st') = r_instanceDestroyed (st_result st)
     \<and> r_fastbootInfo (st_result st') = r_fastbootInfo (st_result st)
     \<and> (no_timer e st \<longrightarrow> body_of st' = body_of st)"







text \<open>A harvested result with a response of the given raw status code and headers.\<close>

definition harvested_result :: "int option \<Rightarrow> headers \<Rightarrow> result" where
  "harvested_result code hs =
     (new_Result (Some (info_with_response \<lparr>raw_statusCode = code, resp_headers = hs\<rparr>)))
       \<lparr>r_html := Some (js ''<html><head><title>t</title></head><body><p>hi</p></body></html>''),
        r_head := Some (js ''<title>t</title>''),
        r_body := Some (js ''<p>hi</p>'')\<rparr>"

section \<open>Lemmas on strings\<close>

lemma starts_with_append_drop:
  "starts_with p s \<Longrightarrow> p @ drop (length p) s = s"
  unfolding starts_with_def by (metis append_take_drop_id)

lemma split_go_not_Nil: "split_go sep cur s \<noteq> []"
  by (induction sep cur s rule: split_go.induct) auto

lemma split_go_join:
  "sep \<noteq> [] \<Longrightarrow>
   hd (split_go sep cur s) @ concat (map (\<lambda>p. sep @ p) (tl (split_go sep cur s))) = rev cur @ s"
proof (induction sep cur s rule: split_go.induct)
  case (1 sep cur)
  then show ?case by simp
next
  case (2 sep cur c cs)
  show ?case
  proof (cases "starts_with sep (c # cs)")
    case True
    have ne: "split_go sep [] (drop (length sep) (c # cs)) \<noteq> []"
      by (rule split_go_not_Nil)
    from True 2 have
      "hd (split_go sep [] (drop (length sep) (c # cs))) @
       concat (map (\<lambda>p. sep @ p) (tl (split_go sep [] (drop (length sep) (c # cs)))))
       = drop (length sep) (c # cs)"
      by simp
    then have
      "concat (map (\<lambda>p. sep @ p) (split_go sep [] (drop (length sep) (c # cs))))
       = sep @ drop (length sep) (c # cs)"
      using ne by (cases "split_go sep [] (drop (length sep) (c # cs))") simp_all
    with True 2 show ?thesis
      by (simp add: starts_with_append_drop)
  next
    case False
    with 2 show ?thesis by simp
  qed
qed

lemma split_join:
  "sep \<noteq> [] \<Longrightarrow> hd (split sep s) @ concat (map (\<lambda>p. sep @ p) (tl (split sep s))) = s"
  using split_go_join [of sep "[]" s] by (simp add: split_def)

lemma match_head_append: "match_head doc = Some (h, b) \<Longrightarrow> h @ b = doc"
proof (induction doc arbitrary: h b)
  case Nil
  then show ?case by simp
next
  case (Cons c cs)
  then show ?case
    by (auto split: option.splits if_splits simp: starts_with_append_drop)
qed

lemma SHOEBOX_TAG_PATTERN_not_Nil: "SHOEBOX_TAG_PATTERN \<noteq> []"
  by (simp add: SHOEBOX_TAG_PATTERN_def js_def)

section \<open>Claims on the result, the request and the info\<close>

lemma match_head_ends:
  "match_head doc = Some (h, b) \<Longrightarrow> \<exists>p. h = p @ HEAD_CLOSE"
proof (induction doc arbitrary: h b)
  case Nil
  then show ?case by simp
next
  case (Cons c cs)
  show ?case
  proof (cases "match_head cs")
    case None
    with Cons.prems have "h = HEAD_CLOSE" by (simp split: if_splits)
    then show ?thesis by simp
  next
    case (Some hb)
    obtain h' b' where hb: "hb = (h', b')" by (cases hb)
    with Some Cons.prems have h: "h = c # h'" by simp
    from Cons.IH [of h' b'] Some hb obtain p where "h' = p @ HEAD_CLOSE" by auto
    with h have "h = (c # p) @ HEAD_CLOSE" by simp
    then show ?thesis by blast
  qed
qed

text \<open>
  C2.  Whenever \<open>chunks()\<close> returns, concatenating the returned strings in order gives
  back the cached full-document string, whatever the number of shoebox tags in it.  It
  returns for every cached string, except that it throws its structural error when
  nothing follows the last \<open></head>\<close>.
\<close>

theorem chunks_concat:
  "(\<forall>cs. chunks (Some doc) = Inr cs \<longrightarrow> concat cs = doc)
   \<and> ((\<exists>cs. chunks (Some doc) = Inr cs)
      \<or> (chunks (Some doc) = Inl chunks_error \<and> (\<exists>p. doc = p @ HEAD_CLOSE)))"
proof (intro conjI allI impI)
  fix cs
  assume r: "chunks (Some doc) = Inr cs"
  show "concat cs = doc"
  proof (cases "match_head doc")
    case None
    with r show ?thesis by (auto simp: chunks_def)
  next
    case (Some hb)
    obtain h b where hb: "hb = (h, b)" by (cases hb)
    from r Some hb have cs:
      "cs = [h, hd (split SHOEBOX_TAG_PATTERN b)] @
            map (\<lambda>s. SHOEBOX_TAG_PATTERN @ s) (tl (split SHOEBOX_TAG_PATTERN b))"
      by (auto simp: chunks_def Let_def split: if_splits)
    have "concat cs = h @ b"
      unfolding cs using split_join [OF SHOEBOX_TAG_PATTERN_not_Nil, of b] by simp
    with Some hb show ?thesis by (simp add: match_head_append)
  qed
next
  show "(\<exists>cs. chunks (Some doc) = Inr cs)
      \<or> (chunks (Some doc) = Inl chunks_error \<and> (\<exists>p. doc = p @ HEAD_CLOSE))"
  proof (cases "match_head doc")
    case None
    then show ?thesis by (simp add: chunks_def)
  next
    case (Some hb)
    obtain h b where hb: "hb = (h, b)" by (cases hb)
    from match_head_ends [of doc h b] Some hb obtain p where p: "h = p @ HEAD_CLOSE"
      by auto
    then have hn: "h \<noteq> []" by (simp add: HEAD_CLOSE_def js_def)
    show ?thesis
    proof (cases "b = []")
      case True
      with match_head_append [of doc h b] Some hb p have "doc = p @ HEAD_CLOSE" by simp
      with Some hb True show ?thesis by (auto simp: chunks_def)
    next
      case False
      with Some hb hn show ?thesis by (simp add: chunks_def Let_def)
    qed
  qed
qed

theorem chunks_concat_witness:
  \<open>chunks (Some (js ''<head></head><b>a<script type="fastboot/shoebox" id="x">1</script><script type="fastboot/shoebox">2</b>''))
     = Inr [js ''<head></head>'', js ''<b>a'',
            js ''<script type="fastboot/shoebox" id="x">1</script>'',
            js ''<script type="fastboot/shoebox">2</b>'']
   \<and> concat [js ''<head></head>'', js ''<b>a'',
            js ''<script type="fastboot/shoebox" id="x">1</script>'',
            js ''<script type="fastboot/shoebox">2</b>'']
     = js ''<head></head><b>a<script type="fastboot/shoebox" id="x">1</script><script type="fastboot/shoebox">2</b>''\<close>
proof -
  have c: \<open>chunks (Some (js ''<head></head><b>a<script type="fastboot/shoebox" id="x">1</script><script type="fastboot/shoebox">2</b>''))
     = Inr [js ''<head></head>'', js ''<b>a'',
            js ''<script type="fastboot/shoebox" id="x">1</script>'',
            js ''<script type="fastboot/shoebox">2</b>'']\<close>
    by (simp add: chunks_def js_def split_def starts_with_def SHOEBOX_TAG_PATTERN_def
        HEAD_CLOSE_def)
  from chunks_concat [of "js ''<head></head><b>a<script type=\"fastboot/shoebox\" id=\"x\">1</script><script type=\"fastboot/shoebox\">2</b>''"] c
  show ?thesis by simp
qed

text \<open>
  C3.  \<open>html()\<close> applies the overrides driven by the status code of the response: with
  204 it returns the empty string and all three cached strings are empty; with a code
  from 300 to 399 it returns the minimal document whose body is the ``Redirecting to''
  anchor of the \<open>location\<close> header when the lookup gives a non-empty value, and the body
  placeholder comment when there is no such header (or its value is the empty string);
  with any other code it returns the harvested markup and changes nothing.
\<close>

theorem html_status_overrides:
  assumes "r_fastbootInfo r = Some info" and "fi_response info = Some response"
  shows
    \<open>(statusCode response = 204 \<longrightarrow>
        html r = Inr (Some [], r\<lparr>r_html := Some [], r_head := Some [], r_body := Some []\<rparr>))
     \<and> (300 \<le> statusCode response \<and> statusCode response \<le> 399 \<longrightarrow>
          (\<forall>l. headers_get (resp_headers response) (js ''location'') = Some l \<and> l \<noteq> [] \<longrightarrow>
             html r =
               Inr (Some (js ''<html><head></head><body><h1>Redirecting to <a href="'' @ l
                          @ js ''">'' @ l @ js ''</a></h1></body></html>''),
                    r\<lparr>r_html := Some (js ''<html><head></head><body><h1>Redirecting to <a href="'' @ l
                                     @ js ''">'' @ l @ js ''</a></h1></body></html>''),
                      r_head := Some [], r_body := Some []\<rparr>))
        \<and> (headers_get (resp_headers response) (js ''location'') = None
           \<or> headers_get (resp_headers response) (js ''location'') = Some [] \<longrightarrow>
             html r =
               Inr (Some (js ''<html><head></head><body><!-- EMBER_CLI_FASTBOOT_BODY --></body></html>''),
                    r\<lparr>r_html := Some (js ''<html><head></head><body><!-- EMBER_CLI_FASTBOOT_BODY --></body></html>''),
                      r_head := Some [], r_body := Some []\<rparr>)))
     \<and> (statusCode response \<noteq> 204 \<and> \<not> (300 \<le> statusCode response \<and> statusCode response \<le> 399) \<longrightarrow>
          html r = Inr (r_html r, r))\<close>
  using assms
  by (auto simp: html_def Let_def placeholder_document_def redirect_document_def js_def)

theorem html_status_overrides_witness:
  \<open>html (harvested_result (Some 204) []) =
     Inr (Some [], (harvested_result (Some 204) [])
                     \<lparr>r_html := Some [], r_head := Some [], r_body := Some []\<rparr>)
   \<and> html (harvested_result (Some 307) [(js ''location'', js ''http://x/y'')]) =
       Inr (Some (js ''<html><head></head><body><h1>Redirecting to <a href="http://x/y">http://x/y</a></h1></body></html>''),
            (harvested_result (Some 307) [(js ''location'', js ''http://x/y'')])
              \<lparr>r_html := Some (js ''<html><head></head><body><h1>Redirecting to <a href="http://x/y">http://x/y</a></h1></body></html>''),
                r_head := Some [], r_body := Some []\<rparr>)
   \<and> html (harvested_result (Some 307) []) =
       Inr (Some (js ''<html><head></head><body><!-- EMBER_CLI_FASTBOOT_BODY --></body></html>''),
            (harvested_result (Some 307) [])
              \<lparr>r_html := Some (js ''<html><head></head><body><!-- EMBER_CLI_FASTBOOT_BODY --></body></html>''),
                r_head := Some [], r_body := Some []\<rparr>)
   \<and> html (harvested_result (Some 418) []) =
       Inr (r_html (harvested_result (Some 418) []), harvested_result (Some 418) [])\<close>
proof -
  have a: "r_fastbootInfo (harvested_result c hs)
           = Some (info_with_response \<lparr>raw_statusCode = c, resp_headers = hs\<rparr>)" for c hs
    by (simp add: harvested_result_def new_Result_def)
  have i: "fi_response (info_with_response response) = Some response" for response
    by (simp add: info_with_response_def)
  have l: "headers_get [(js ''location'', js ''http://x/y'')] (js ''location'')
           = Some (js ''http://x/y'')"
    by (simp add: headers_get_def toLowerCase_def lower_char_def js_def)
  have n: "js ''http://x/y'' \<noteq> []"
    by (simp add: js_def)
  have c: \<open>js ''<html><head></head><body><h1>Redirecting to <a href="http://x/y">http://x/y</a></h1></body></html>''
           = js ''<html><head></head><body><h1>Redirecting to <a href="'' @ js ''http://x/y''
             @ js ''">'' @ js ''http://x/y'' @ js ''</a></h1></body></html>''\<close>
    by (simp add: js_def)
  show ?thesis
    unfolding c
    using html_status_overrides [OF a i, of "Some 204" "[]"]
      html_status_overrides [OF a i, of "Some 307" "[(js ''location'', js ''http://x/y'')]"]
      html_status_overrides [OF a i, of "Some 307" "[]"]
      html_status_overrides [OF a i, of "Some 418" "[]"] l n
    by (simp add: statusCode_def headers_get_def)
qed

text \<open>
  C10.  When the status code of the response is 204 or lies in 300..399, \<open>html()\<close>
  overwrites the cached head and body, so \<open>domContents()\<close> on the result it leaves
  gives the pair of empty strings and no longer the harvested contents; with any other
  status code the cached head and body are what they were.
\<close>

theorem html_overwrites_domContents:
  assumes "r_fastbootInfo r = Some info" and "fi_response info = Some response"
    and "html r = Inr (v, r')"
  shows
    "(statusCode response = 204 \<or> (300 \<le> statusCode response \<and> statusCode response \<le> 399) \<longrightarrow>
        domContents r' = (Some [], Some []))
     \<and> (\<not> (statusCode response = 204 \<or> (300 \<le> statusCode response \<and> statusCode response \<le> 399)) \<longrightarrow>
          domContents r' = domContents r)"
  using assms
  by (auto simp: html_def Let_def domContents_def split: option.splits if_splits)

theorem html_overwrites_domContents_witness:
  "(\<exists>v r'. html (harvested_result (Some 307) []) = Inr (v, r')
       \<and> domContents r' = (Some [], Some [])
       \<and> domContents (harvested_result (Some 307) []) = (Some (js ''<title>t</title>''), Some (js ''<p>hi</p>'')))
   \<and> (\<exists>v r'. html (harvested_result (Some 418) []) = Inr (v, r')
       \<and> domContents r' = domContents (harvested_result (Some 418) []))"
proof -
  have a: "r_fastbootInfo (harvested_result c hs)
           = Some (info_with_response \<lparr>raw_statusCode = c, resp_headers = hs\<rparr>)" for c hs
    by (simp add: harvested_result_def new_Result_def)
  have i: "fi_response (info_with_response response) = Some response" for response
    by (simp add: info_with_response_def)
  obtain v r' where h: "html (harvested_result (Some 307) []) = Inr (v, r')"
    by (simp add: html_def harvested_result_def new_Result_def statusCode_def Let_def
        headers_get_def info_with_response_def)
  obtain w s' where k: "html (harvested_result (Some 418) []) = Inr (w, s')"
    by (simp add: html_def harvested_result_def new_Result_def statusCode_def Let_def
        info_with_response_def)
  have d: "domContents (harvested_result (Some 307) [])
           = (Some (js ''<title>t</title>''), Some (js ''<p>hi</p>''))"
    by (simp add: domContents_def harvested_result_def new_Result_def)
  from html_overwrites_domContents [OF a i h] have "domContents r' = (Some [], Some [])"
    by (simp add: statusCode_def)
  moreover from html_overwrites_domContents [OF a i k]
  have "domContents s' = domContents (harvested_result (Some 418) [])"
    by (simp add: statusCode_def)
  ultimately show ?thesis using h k d by blast
qed

text \<open>
  C7, as the claim states it, fails: an error with the empty message does not say that
  the surface was closed, and \<open>evaluate\<close> swallows it all the same.
\<close>

theorem evaluate_swallows_empty_message_counterexample:
  "\<not> indicates_closed (Error (Some []))
   \<and> evaluate (new_Result None) (Inl (Error (Some [])) :: js_error + unit) (Inl TypeError)
       = Inr (None, new_Result None)"
  by (simp add: evaluate_def tryWithPageAwareness_def new_Result_def closed_match_def
      PAGE_CLOSED_Target_def PAGE_CLOSED_Session_def js_def)

text \<open>
  C7, amended.  On a wrapper marked destroyed, \<open>setContent\<close> and \<open>evaluate\<close> do nothing
  and return \<open>undefined\<close>.  Otherwise an error of the page is swallowed (the call returns
  \<open>undefined\<close> and the result is unchanged) when its message says that the target or
  the session was closed, and also when it has no message or an empty one; every other
  error reaches the caller.
\<close>

theorem page_awareness:
  fixes v :: 'v and b :: "js_error + 'v"
  shows
  "(r_instanceDestroyed r \<longrightarrow>
      setContent r a h = Inr r \<and> evaluate r b h = Inr (None, r))
   \<and> (\<not> r_instanceDestroyed r \<longrightarrow>
        (indicates_closed err \<or> no_message err \<longrightarrow>
           setContent r (Inl err) h = Inr r
           \<and> evaluate r (Inl err :: js_error + 'v) h = Inr (None, r)
           \<and> setContent r (Inr ()) (Inl err) = Inr r
           \<and> evaluate r (Inr v) (Inl err) = Inr (None, r))
      \<and> (\<not> indicates_closed err \<and> \<not> no_message err \<longrightarrow>
           setContent r (Inl err) h = Inl err
           \<and> evaluate r (Inl err :: js_error + 'v) h = Inl err
           \<and> setContent r (Inr ()) (Inl err) = Inl err
           \<and> evaluate r (Inr v) (Inl err) = Inl err))"
proof -
  have sw: "rethrown err \<longleftrightarrow> \<not> indicates_closed err \<and> \<not> no_message err"
    by (cases err rule: rethrown.cases) auto
  show ?thesis
    by (simp add: sw setContent_def evaluate_def tryWithPageAwareness_def
        reflectContents_def)
qed

theorem page_awareness_witness:
  "evaluate ((new_Result None)\<lparr>r_instanceDestroyed := True\<rparr>) (Inr (1::nat)) (Inl TypeError)
     = Inr (None, (new_Result None)\<lparr>r_instanceDestroyed := True\<rparr>)
   \<and> indicates_closed (Error (Some (js ''Protocol error: Target closed.'')))
   \<and> evaluate (new_Result None) (Inl (Error (Some (js ''Protocol error: Target closed.''))))
        (Inl TypeError) = Inr (None :: nat option, new_Result None)
   \<and> \<not> indicates_closed (Error (Some (js ''boom''))) \<and> \<not> no_message (Error (Some (js ''boom'')))
   \<and> evaluate (new_Result None) (Inl (Error (Some (js ''boom'')))) (Inl TypeError)
       = (Inl (Error (Some (js ''boom''))) :: js_error + (nat option \<times> result))"
proof -
  have d: "r_instanceDestroyed ((new_Result None)\<lparr>r_instanceDestroyed := True\<rparr>)"
    by simp
  have n: "\<not> r_instanceDestroyed (new_Result None)"
    by (simp add: new_Result_def)
  have c: "indicates_closed (Error (Some (js ''Protocol error: Target closed.'')))"
    by (simp add: closed_match_def PAGE_CLOSED_Target_def PAGE_CLOSED_Session_def js_def
        starts_with_def)
  have b: "\<not> indicates_closed (Error (Some (js ''boom'')))"
    "\<not> no_message (Error (Some (js ''boom'')))"
    by (simp_all add: closed_match_def PAGE_CLOSED_Target_def PAGE_CLOSED_Session_def js_def
        starts_with_def)
  show ?thesis
    using page_awareness [of "(new_Result None)\<lparr>r_instanceDestroyed := True\<rparr>"
            "Inr ()" "Inl TypeError" "Inr (1::nat)" "Error None" "1::nat"]
      page_awareness [of "new_Result None" "Inr ()" "Inl TypeError" "Inr (1::nat)"
            "Error (Some (js ''Protocol error: Target closed.''))" "1::nat"]
      page_awareness [of "new_Result None" "Inr ()" "Inl TypeError" "Inr (1::nat)"
            "Error (Some (js ''boom''))" "1::nat"]
      d n c b
    by simp
qed





text \<open>
  C6, as the claim states it, fails: an info built without a response has one all the
  same, so the second slot of its tuple is response data, and the tuple with an
  undefined second slot is reconstructed to an info whose tuple has response data there.
\<close>

theorem serialize_absent_response_counterexample:
  "reconstruct no_cookies (None, None, plain_options, None)
     = Inr (info_with_response (new_FastBootResponse empty_object))
   \<and> serialize (info_with_response (new_FastBootResponse empty_object))
       = (None,
          Some \<lparr>rs_statusCode = Some 200, rs_u_headers = None, rs_headers = Some []\<rparr>,
          plain_options, None)"
  by (simp add: reconstruct_def new_FastBootInfo_def info_with_response_def plain_options_def
      serialize_def response_serialize_def new_FastBootResponse_def empty_object_def
      statusCode_def new_FastBootHeaders_def)

text \<open>
  C6, amended.  Serializing yields the tuple of four entries whose first entry is
  undefined exactly when the info has no request and whose second entry is undefined
  exactly when it has no response, with the metadata in the third and the shoebox in
  the fourth.  An info that the constructor has built always has a response: the tuple
  of an info reconstructed from four entries has its first entry undefined exactly when
  the given first entry was, has response data as its second entry in every case, and
  has the given metadata and shoebox.  Reconstructing from a serialized tuple does not
  throw.
\<close>

theorem serialize_shape:
  "(case serialize info of (rq, rs, opts, sb) \<Rightarrow>
      (rq = None \<longleftrightarrow> fi_request info = None) \<and> (rs = None \<longleftrightarrow> fi_response info = None)
      \<and> o_metadata opts = fi_metadata info \<and> sb = fi_shoebox info)
   \<and> (\<forall>info'. reconstruct cookie_parse (request, response, options, shoebox) = Inr info' \<longrightarrow>
         (case serialize info' of (rq, rs, opts, sb) \<Rightarrow>
            (rq = None \<longleftrightarrow> request = None) \<and> rs \<noteq> None
            \<and> o_metadata opts = o_metadata options \<and> sb = shoebox))
   \<and> (\<exists>info'. reconstruct cookie_parse (serialize info) = Inr info')"
proof -
  have 1: "case serialize info of (rq, rs, opts, sb) \<Rightarrow>
      (rq = None \<longleftrightarrow> fi_request info = None) \<and> (rs = None \<longleftrightarrow> fi_response info = None)
      \<and> o_metadata opts = fi_metadata info \<and> sb = fi_shoebox info"
    by (simp add: serialize_def split: option.splits)
  have 2: "case serialize info' of (rq, rs, opts, sb) \<Rightarrow>
            (rq = None \<longleftrightarrow> request = None) \<and> rs \<noteq> None
            \<and> o_metadata opts = o_metadata options \<and> sb = shoebox"
    if "reconstruct cookie_parse (request, response, options, shoebox) = Inr info'" for info'
    using that
    by (auto simp: reconstruct_def new_FastBootInfo_def serialize_def Let_def
        split: option.splits sum.splits)
  have 3: "\<exists>info'. reconstruct cookie_parse (serialize info) = Inr info'"
    by (auto simp: reconstruct_def new_FastBootInfo_def serialize_def Let_def
        new_FastBootRequest_def extractCookies_def request_serialize_def
        split: option.splits sum.splits)
  from 1 2 3 show ?thesis by blast
qed

theorem serialize_shape_witness:
  "\<exists>info'. reconstruct no_cookies (Some get_request, None, plain_options, None) = Inr info'
     \<and> fst (serialize info') \<noteq> None \<and> fst (snd (serialize info')) \<noteq> None
     \<and> snd (snd (snd (serialize info'))) = None"
proof -
  obtain info' where
    r: "reconstruct no_cookies (Some get_request, None, plain_options, None) = Inr info'"
    by (simp add: reconstruct_def new_FastBootInfo_def new_FastBootRequest_def
        extractCookies_def get_request_def js_def Let_def)
  from serialize_shape [of info' no_cookies "Some get_request" None plain_options None] r
  show ?thesis by (auto split: prod.splits)
qed

lemma escapeJSONString_escaped: "escapeJSONString s = escaped s"
proof -
  have t: "(if JSON_ESCAPE_REGEXP c
            then (case map_of JSON_ESCAPE c of Some r \<Rightarrow> r | None \<Rightarrow> js ''undefined'')
            else [c])
           = (if c \<in> {38, 60, 62, 0x2028, 0x2029} then unicode_escape c else [c])" for c
    by (auto simp: JSON_ESCAPE_REGEXP_def JSON_ESCAPE_def backslash_u_def js_def
        unicode_escape_def hex_digit_def)
  show ?thesis
    unfolding escaped_def by (induction s) (simp_all only: escapeJSONString.simps t list.map concat.simps)
qed

lemma timer_at_no_timer: "no_timer e st \<Longrightarrow> timer_at e m st = st"
  by (auto simp: no_timer_def timer_at_def split: option.splits)

lemma submitted_keeps:
  "st_result (submitted sc rej st) = st_result st"
  "st_timer (submitted sc rej st) = st_timer st"
  "st_didDestroy (submitted sc rej st) = st_didDestroy st"
  "ea_hasInitialized (st_app (submitted sc rej st)) = ea_hasInitialized (st_app st)"
  "ea_sandboxGlobals (st_app (submitted sc rej st)) = ea_sandboxGlobals (st_app st)"
  by (simp_all add: submitted_def)

lemma result_evaluate_accepted:
  assumes "\<not> r_instanceDestroyed (st_result st)" and "env_rejects e call = None"
    and "no_timer e st" and "result_evaluate e call sc v st = (out, st')"
  shows "ea_page (st_app st')
           = run_script sc ((ea_page (st_app st))\<lparr>pg_log := pg_log (ea_page (st_app st))
                                                    @ [(sc, pg_window (ea_page (st_app st)))]\<rparr>)"
    and "\<not> r_instanceDestroyed (st_result st')" and "no_timer e st'"
    and "st_didDestroy st' = st_didDestroy st"
proof -
  let ?st1 = "submitted sc False st"
  have n: "no_timer e ?st1" using assms(3) by (simp add: no_timer_def submitted_def)
  from assms have r: "(case evaluate (st_result st) (Inr v) (env_harvest e call) of
              Inl err \<Rightarrow> (Inl err, ?st1)
            | Inr (v, r') \<Rightarrow> (Inr v, ?st1\<lparr>st_result := r'\<rparr>)) = (out, st')"
    by (simp add: result_evaluate_def timer_at_no_timer n Let_def submitted_keeps)
  have d: "\<not> r_instanceDestroyed r'" if "evaluate (st_result st) (Inr v) (env_harvest e call) = Inr (w, r')" for w r'
    using that assms(1)
    by (auto simp: evaluate_def tryWithPageAwareness_def reflectContents_def split: sum.splits if_splits option.splits)
  from r show "ea_page (st_app st')
           = run_script sc ((ea_page (st_app st))\<lparr>pg_log := pg_log (ea_page (st_app st))
                                                    @ [(sc, pg_window (ea_page (st_app st)))]\<rparr>)"
    by (auto simp: submitted_def submit_def Let_def split: sum.splits prod.splits)
  from r d assms(1) show "\<not> r_instanceDestroyed (st_result st')"
    by (auto simp: submitted_def split: sum.splits prod.splits)
  from r assms(3) show "no_timer e st'"
    by (auto simp: submitted_def no_timer_def split: sum.splits prod.splits)
  from r show "st_didDestroy st' = st_didDestroy st"
    by (auto simp: submitted_def split: sum.splits prod.splits)
qed

lemma createShoebox_loop_inserts:
  assumes "\<not> r_instanceDestroyed (st_result st)" and "\<forall>key. env_rejects e (Call_shoebox key) = None"
    and "no_timer e st" and "createShoebox_loop e sb st = (Inr u, st')"
  shows "pg_beforeend (ea_page (st_app st'))
           = pg_beforeend (ea_page (st_app st))
             @ map (\<lambda>(key, v). shoebox_element key (escapeJSONString (env_JSON_stringify e v))) sb"
  using assms
proof (induction sb arbitrary: st)
  case Nil
  then show ?case by simp
next
  case (Cons kv sb)
  obtain key v where kv: "kv = (key, v)" by (cases kv)
  let ?t = "escapeJSONString (env_JSON_stringify e v)"
  obtain out st1 where 1: "result_evaluate e (Call_shoebox key) (ShoeboxScript key ?t) () st = (out, st1)"
    by (cases "result_evaluate e (Call_shoebox key) (ShoeboxScript key ?t) () st")
  from Cons.prems(4) kv 1 obtain w where o: "out = Inr w" and 2: "createShoebox_loop e sb st1 = (Inr u, st')"
    by (auto simp: Let_def split: sum.splits)
  from Cons.prems have rj: "env_rejects e (Call_shoebox key) = None" by simp
  note f = result_evaluate_accepted [OF Cons.prems(1) rj Cons.prems(3) 1]
  from Cons.IH [OF f(2) Cons.prems(2) f(3) 2] f(1) kv show ?case
    by simp
qed

section \<open>What the steps of a visit leave alone\<close>

lemma frame_refl: "frame e P st st"
  by (simp add: frame_def)

lemma frame_trans:
  assumes "frame e P a b" and "frame e P b c"
  shows "frame e P a c"
proof -
  from assms(1) obtain xs where
    ab: "st_timer b = st_timer a"
      "ea_hasInitialized (st_app b) = ea_hasInitialized (st_app a)"
      "ea_sandboxGlobals (st_app b) = ea_sandboxGlobals (st_app a)"
      "r_instanceDestroyed (st_result b) = r_instanceDestroyed (st_result a)"
      "log_of b = log_of a @ xs"
      "\<forall>x \<in> set xs. P (fst x) \<and> \<not> is_SandboxGlobals (fst x)"
      "no_timer e a \<longrightarrow> (\<forall>x \<in> set xs. snd x = window_of a)"
      "no_timer e a \<longrightarrow> window_of b = window_of a \<and> st_didDestroy b = st_didDestroy a"
    unfolding frame_def by blast
  from assms(2) obtain ys where
    bc: "st_timer c = st_timer b"
      "ea_hasInitialized (st_app c) = ea_hasInitialized (st_app b)"
      "ea_sandboxGlobals (st_app c) = ea_sandboxGlobals (st_app b)"
      "r_instanceDestroyed (st_result c) = r_instanceDestroyed (st_result b)"
      "log_of c = log_of b @ ys"
      "\<forall>x \<in> set ys. P (fst x) \<and> \<not> is_SandboxGlobals (fst x)"
      "no_timer e b \<longrightarrow> (\<forall>x \<in> set ys. snd x = window_of b)"
      "no_timer e b \<longrightarrow> window_of c = window_of b \<and> st_didDestroy c = st_didDestroy b"
    unfolding frame_def by blast
  have nt: "no_timer e b = no_timer e a"
    using ab(1) by (simp add: no_timer_def)
  have l: "log_of c = log_of a @ (xs @ ys)"
    using ab(5) bc(5) by simp
  have p: "\<forall>x \<in> set (xs @ ys). P (fst x) \<and> \<not> is_SandboxGlobals (fst x)"
    using ab(6) bc(6) by auto
  have w: "no_timer e a \<longrightarrow> (\<forall>x \<in> set (xs @ ys). snd x = window_of a)"
    using ab(7,8) bc(7) nt by auto
  have w2: "no_timer e a \<longrightarrow> window_of c = window_of a \<and> st_didDestroy c = st_didDestroy a"
    using ab(8) bc(8) nt by simp
  show ?thesis
    unfolding frame_def using ab(1-4) bc(1-4) l p w w2 by (intro conjI exI [of _ "xs @ ys"]) simp_all
qed

lemma frame_mono:
  assumes "frame e P a b" and "\<And>x. P x \<Longrightarrow> Q x"
  shows "frame e Q a b"
proof -
  from assms(1) obtain xs where
    ab: "st_timer b = st_timer a"
      "ea_hasInitialized (st_app b) = ea_hasInitialized (st_app a)"
      "ea_sandboxGlobals (st_app b) = ea_sandboxGlobals (st_app a)"
      "r_instanceDestroyed (st_result b) = r_instanceDestroyed (st_result a)"
      "log_of b = log_of a @ xs"
      "\<forall>x \<in> set xs. P (fst x) \<and> \<not> is_SandboxGlobals (fst x)"
      "no_timer e a \<longrightarrow> (\<forall>x \<in> set xs. snd x = window_of a)"
      "no_timer e a \<longrightarrow> window_of b = window_of a \<and> st_didDestroy b = st_didDestroy a"
    unfolding frame_def by blast
  from ab(6) assms(2) have q: "\<forall>x \<in> set xs. Q (fst x) \<and> \<not> is_SandboxGlobals (fst x)"
    by blast
  show ?thesis
    unfolding frame_def using ab(1-5,7,8) q by (intro conjI exI [of _ xs]) simp_all
qed


lemma frame_and_then:
  assumes "and_then m f = (out, s2)"
    and "\<And>o1 s1. m = (o1, s1) \<Longrightarrow> frame e P s0 s1"
    and "\<And>a s1. m = (Inr a, s1) \<Longrightarrow> f a s1 = (out, s2) \<Longrightarrow> frame e P s1 s2"
  shows "frame e P s0 s2"
proof (cases m)
  case (Pair o1 s1)
  show ?thesis
  proof (cases o1)
    case (Inl err)
    with Pair assms(1) have "s2 = s1" by (simp add: and_then_def)
    with assms(2) [OF Pair] show ?thesis by simp
  next
    case (Inr a)
    with Pair assms(1) have "f a s1 = (out, s2)" by (simp add: and_then_def)
    with assms(2) [OF Pair] assms(3) Pair Inr show ?thesis
      by (blast intro: frame_trans)
  qed
qed

lemma frameI:
  assumes "st_timer b = st_timer a"
    and "ea_hasInitialized (st_app b) = ea_hasInitialized (st_app a)"
    and "ea_sandboxGlobals (st_app b) = ea_sandboxGlobals (st_app a)"
    and "r_instanceDestroyed (st_result b) = r_instanceDestroyed (st_result a)"
    and "log_of b = log_of a @ xs"
    and "\<forall>x \<in> set xs. P (fst x) \<and> \<not> is_SandboxGlobals (fst x)"
    and "no_timer e a \<longrightarrow> (\<forall>x \<in> set xs. snd x = window_of a)"
    and "no_timer e a \<longrightarrow> window_of b = window_of a \<and> st_didDestroy b = st_didDestroy a"
  shows "frame e P a b"
  unfolding frame_def using assms by (intro conjI exI [of _ xs]) simp_all

lemma timer_callback_keeps:
  "st_timer (timer_callback e ms st) = st_timer st"
  "ea_hasInitialized (st_app (timer_callback e ms st)) = ea_hasInitialized (st_app st)"
  "ea_sandboxGlobals (st_app (timer_callback e ms st)) = ea_sandboxGlobals (st_app st)"
  "r_instanceDestroyed (st_result (timer_callback e ms st)) = r_instanceDestroyed (st_result st)"
  "log_of (timer_callback e ms st) = log_of st"
  by (simp_all add: timer_callback_def Let_def log_of_def page_reload_def
      split: option.splits js_error.splits)

lemma timer_at_cases:
  "timer_at e m st = st \<or> (\<not> no_timer e st \<and> (\<exists>ms. timer_at e m st = timer_callback e ms st))"
  by (auto simp: timer_at_def no_timer_def split: option.splits)

lemma frame_timer_at: "frame e P st (timer_at e m st)"
proof -
  from timer_at_cases [of e m st] show ?thesis
  proof
    assume "timer_at e m st = st"
    then show ?thesis by (simp add: frame_refl)
  next
    assume "\<not> no_timer e st \<and> (\<exists>ms. timer_at e m st = timer_callback e ms st)"
    then obtain ms where n: "\<not> no_timer e st" and t: "timer_at e m st = timer_callback e ms st"
      by blast
    show ?thesis
      unfolding t using n
      by (intro frameI [where xs = "[]"]) (simp_all add: timer_callback_keeps)
  qed
qed

lemma evaluate_keeps_destroyed:
  "evaluate r outcome h = Inr (v, r') \<Longrightarrow> r_instanceDestroyed r' = r_instanceDestroyed r"
  by (auto simp: evaluate_def tryWithPageAwareness_def reflectContents_def
      split: sum.splits if_splits option.splits)

lemma evaluate_keeps_info:
  "evaluate r outcome h = Inr (v, r') \<Longrightarrow> r_fastbootInfo r' = r_fastbootInfo r"
  by (auto simp: evaluate_def tryWithPageAwareness_def reflectContents_def
      split: sum.splits if_splits option.splits)

lemma setContent_keeps_destroyed:
  "setContent r outcome h = Inr r' \<Longrightarrow> r_instanceDestroyed r' = r_instanceDestroyed r"
  by (auto simp: setContent_def tryWithPageAwareness_def reflectContents_def
      split: sum.splits if_splits option.splits)


lemma run_script_keeps:
  "pg_log (run_script sc pg) = pg_log pg"
  "\<not> is_SandboxGlobals sc \<Longrightarrow> pg_window (run_script sc pg) = pg_window pg"
  by (cases sc; simp)+

lemma submit_keeps:
  "pg_log (submit sc rej pg) = pg_log pg @ [(sc, pg_window pg)]"
  "\<not> is_SandboxGlobals sc \<Longrightarrow> pg_window (submit sc rej pg) = pg_window pg"
  by (simp_all add: submit_def Let_def run_script_keeps)

lemma frame_submitted:
  assumes "P sc" and "\<not> is_SandboxGlobals sc"
  shows "frame e P st (submitted sc rej st)"
  using assms
  by (intro frameI [where xs = "[(sc, window_of st)]"])
     (simp_all add: submitted_def log_of_def window_of_def submit_keeps)

lemma result_evaluate_cases:
  assumes "result_evaluate e call sc v st = (out, st')"
  shows "(r_instanceDestroyed (st_result (timer_at e (Before call) st))
            \<and> st' = timer_at e (Before call) st \<and> out = Inr None)
         \<or> (\<not> r_instanceDestroyed (st_result (timer_at e (Before call) st))
            \<and> (\<exists>r'. r_instanceDestroyed r'
                       = r_instanceDestroyed
                           (st_result (timer_at e (In_flight call)
                              (submitted sc (env_rejects e call \<noteq> None) (timer_at e (Before call) st))))
                  \<and> r_fastbootInfo r'
                       = r_fastbootInfo
                           (st_result (timer_at e (In_flight call)
                              (submitted sc (env_rejects e call \<noteq> None) (timer_at e (Before call) st))))
                  \<and> st' = (timer_at e (In_flight call)
                              (submitted sc (env_rejects e call \<noteq> None) (timer_at e (Before call) st)))
                           \<lparr>st_result := r'\<rparr>))"
proof (cases "r_instanceDestroyed (st_result (timer_at e (Before call) st))")
  case True
  with assms show ?thesis by (simp add: result_evaluate_def Let_def)
next
  case False
  let ?c = "timer_at e (In_flight call)
              (submitted sc (env_rejects e call \<noteq> None) (timer_at e (Before call) st))"
  let ?outcome = "case env_rejects e call of Some err \<Rightarrow> Inl err | None \<Rightarrow> Inr v"
  from assms False have r:
    "(case evaluate (st_result ?c) ?outcome (env_harvest e call) of
        Inl err \<Rightarrow> (Inl err, ?c)
      | Inr (v, r') \<Rightarrow> (Inr v, ?c\<lparr>st_result := r'\<rparr>)) = (out, st')"
    unfolding result_evaluate_def Let_def by (simp only: if_False)
  show ?thesis
  proof (cases "evaluate (st_result ?c) ?outcome (env_harvest e call)")
    case (Inl err)
    with r have "st' = ?c\<lparr>st_result := st_result ?c\<rparr>" by simp
    with False show ?thesis by blast
  next
    case (Inr p)
    obtain w r' where p: "p = (w, r')" by (cases p)
    from evaluate_keeps_destroyed [of "st_result ?c" ?outcome "env_harvest e call" w r'] Inr p
    have "r_instanceDestroyed r' = r_instanceDestroyed (st_result ?c)" by simp
    moreover
    from evaluate_keeps_info [of "st_result ?c" ?outcome "env_harvest e call" w r'] Inr p
    have "r_fastbootInfo r' = r_fastbootInfo (st_result ?c)" by simp
    moreover from r Inr p have "st' = ?c\<lparr>st_result := r'\<rparr>" by simp
    ultimately show ?thesis using False by blast
  qed
qed

lemma frame_set_result:
  "r_instanceDestroyed r' = r_instanceDestroyed (st_result st) \<Longrightarrow>
   frame e P st (st\<lparr>st_result := r'\<rparr>)"
  by (intro frameI [where xs = "[]"]) (simp_all add: log_of_def window_of_def)

lemma frame_result_evaluate:
  assumes "result_evaluate e call sc v st = (out, st')" and "P sc" and "\<not> is_SandboxGlobals sc"
  shows "frame e P st st'"
proof -
  let ?a = "timer_at e (Before call) st"
  let ?b = "submitted sc (env_rejects e call \<noteq> None) ?a"
  let ?c = "timer_at e (In_flight call) ?b"
  have 1: "frame e P st ?a" by (rule frame_timer_at)
  have 2: "frame e P ?a ?b" using assms(2,3) by (rule frame_submitted)
  have 3: "frame e P ?b ?c" by (rule frame_timer_at)
  have abc: "frame e P st ?c" using 1 2 3 by (blast intro: frame_trans)
  from result_evaluate_cases [OF assms(1)] show ?thesis
  proof
    assume "r_instanceDestroyed (st_result ?a) \<and> st' = ?a \<and> out = Inr None"
    with 1 show ?thesis by simp
  next
    assume "\<not> r_instanceDestroyed (st_result ?a)
            \<and> (\<exists>r'. r_instanceDestroyed r' = r_instanceDestroyed (st_result ?c)
                  \<and> r_fastbootInfo r' = r_fastbootInfo (st_result ?c)
                  \<and> st' = ?c\<lparr>st_result := r'\<rparr>)"
    then obtain r' where "r_instanceDestroyed r' = r_instanceDestroyed (st_result ?c)"
      and s: "st' = ?c\<lparr>st_result := r'\<rparr>" by blast
    then have "frame e P ?c st'" by (simp add: frame_set_result)
    with abc show ?thesis by (blast intro: frame_trans)
  qed
qed


lemma frame_clearPageStorage:
  "clearPageStorage e st = (out, st') \<Longrightarrow> frame e P st st'"
proof -
  assume a: "clearPageStorage e st = (out, st')"
  let ?a = "timer_at e (Before Call_clearPageStorage) st"
  let ?b = "timer_at e (In_flight Call_clearPageStorage) ?a"
  from a have "st' = ?b"
    by (auto simp: clearPageStorage_def Let_def split: option.splits)
  moreover have "frame e P st ?b"
    using frame_timer_at [of e P st] frame_timer_at [of e P ?a] by (blast intro: frame_trans)
  ultimately show ?thesis by simp
qed

lemma log_clearPageStorage:
  "clearPageStorage e st = (out, st') \<Longrightarrow> log_of st' = log_of st"
proof -
  assume a: "clearPageStorage e st = (out, st')"
  have t: "log_of (timer_at e m s) = log_of s" for m s
    using timer_at_cases [of e m s] by (auto simp: timer_callback_keeps)
  from a have "st' = timer_at e (In_flight Call_clearPageStorage)
                       (timer_at e (Before Call_clearPageStorage) st)"
    by (auto simp: clearPageStorage_def Let_def split: option.splits)
  then show ?thesis by (simp add: t)
qed

lemma frame_initializeAppEnvironment:
  assumes "initializeAppEnvironment e st = (out, st')"
  shows "frame e is_boot_script st st'"
proof -
  obtain o1 s1 where r: "result_evaluate e Call_initializeAppEnvironment
          (InitializeAppEnvironment (ea_appName (st_app st)) (ea_config (st_app st))) () st = (o1, s1)"
    by (cases "result_evaluate e Call_initializeAppEnvironment
          (InitializeAppEnvironment (ea_appName (st_app st)) (ea_config (st_app st))) () st")
  from assms r have "st' = s1"
    by (auto simp: initializeAppEnvironment_def and_then_def split: sum.splits)
  with frame_result_evaluate [OF r, of is_boot_script] show ?thesis by simp
qed

lemma frame_evaluate_files:
  "evaluate_files e call filePaths st = (out, st') \<Longrightarrow> frame e is_boot_script st st'"
proof (induction filePaths arbitrary: st)
  case Nil
  then show ?case by (simp add: frame_refl)
next
  case (Cons filePath filePaths)
  show ?case
  proof (cases "env_readFileSync e filePath")
    case (Inl err)
    with Cons.prems show ?thesis by (simp add: frame_refl)
  next
    case (Inr src)
    obtain o1 s1 where r: "result_evaluate e (call filePath) (SourceText src) () st = (o1, s1)"
      by (cases "result_evaluate e (call filePath) (SourceText src) () st")
    have f: "frame e is_boot_script st s1"
      using frame_result_evaluate [OF r, of is_boot_script] by simp
    show ?thesis
    proof (cases o1)
      case (Inl err)
      with Cons.prems Inr r have "st' = s1" by simp
      with f show ?thesis by simp
    next
      case (Inr v)
      with Cons.prems \<open>env_readFileSync e filePath = Inr src\<close> r
      have "evaluate_files e call filePaths s1 = (out, st')" by simp
      from Cons.IH [OF this] f show ?thesis by (blast intro: frame_trans)
    qed
  qed
qed

lemma frame_loadAppFiles:
  assumes "loadAppFiles e st = (out, st')"
  shows "frame e is_boot_script st st'"
  using assms unfolding loadAppFiles_def
  by (rule frame_and_then) (auto intro: frame_evaluate_files)

lemma frame_build_bundle:
  "build_bundle e st = (out, st') \<Longrightarrow> frame e P st st'"
  by (auto simp: build_bundle_def split: sum.splits
      intro!: frameI [where xs = "[]"] simp: log_of_def window_of_def)

lemma frame_createShoebox_loop:
  "createShoebox_loop e sb st = (out, st') \<Longrightarrow> frame e (\<lambda>sc. \<not> is_boot_script sc) st st'"
proof (induction sb arbitrary: st)
  case Nil
  then show ?case by (simp add: frame_refl)
next
  case (Cons kv sb)
  obtain key v where kv: "kv = (key, v)" by (cases kv)
  let ?t = "escapeJSONString (env_JSON_stringify e v)"
  obtain o1 s1 where r: "result_evaluate e (Call_shoebox key) (ShoeboxScript key ?t) () st = (o1, s1)"
    by (cases "result_evaluate e (Call_shoebox key) (ShoeboxScript key ?t) () st")
  have f: "frame e (\<lambda>sc. \<not> is_boot_script sc) st s1"
    using frame_result_evaluate [OF r, of "\<lambda>sc. \<not> is_boot_script sc"] by simp
  show ?case
  proof (cases o1)
    case (Inl err)
    with Cons.prems kv r have "st' = s1" by (simp add: Let_def)
    with f show ?thesis by simp
  next
    case (Inr w)
    with Cons.prems kv r have "createShoebox_loop e sb s1 = (out, st')" by (simp add: Let_def)
    from Cons.IH [OF this] f show ?thesis by (blast intro: frame_trans)
  qed
qed

lemma frame_createShoebox:
  "createShoebox e info st = (out, st') \<Longrightarrow> frame e (\<lambda>sc. \<not> is_boot_script sc) st st'"
  by (auto simp: createShoebox_def frame_refl split: option.splits intro: frame_createShoebox_loop)

lemma frame_finalize:
  assumes "finalize e st = (out, st')"
  shows "frame e (\<lambda>sc. \<not> is_boot_script sc) st st'"
proof (cases "r_finalized (st_result st)")
  case True
  with assms show ?thesis by (simp add: finalize_def frame_refl)
next
  case False
  obtain o1 s1 where r: "result_evaluate e Call_finalize RemoveEmberApplication () st = (o1, s1)"
    by (cases "result_evaluate e Call_finalize RemoveEmberApplication () st")
  have f: "frame e (\<lambda>sc. \<not> is_boot_script sc) st s1"
    using frame_result_evaluate [OF r, of "\<lambda>sc. \<not> is_boot_script sc"] by simp
  from assms False r
  have "st' = s1 \<or> st' = s1\<lparr>st_result := (st_result s1)\<lparr>r_finalized := True\<rparr>\<rparr>"
    by (auto simp: finalize_def and_then_def split: sum.splits)
  moreover have "frame e (\<lambda>sc. \<not> is_boot_script sc) s1
                   (s1\<lparr>st_result := (st_result s1)\<lparr>r_finalized := True\<rparr>\<rparr>)"
    by (rule frame_set_result) simp
  ultimately show ?thesis using f by (auto intro: frame_trans)
qed


lemma frameE:
  assumes "frame e P a b"
  obtains xs where "st_timer b = st_timer a"
    and "ea_hasInitialized (st_app b) = ea_hasInitialized (st_app a)"
    and "ea_sandboxGlobals (st_app b) = ea_sandboxGlobals (st_app a)"
    and "r_instanceDestroyed (st_result b) = r_instanceDestroyed (st_result a)"
    and "log_of b = log_of a @ xs"
    and "\<forall>x \<in> set xs. P (fst x) \<and> \<not> is_SandboxGlobals (fst x)"
    and "no_timer e a \<longrightarrow> (\<forall>x \<in> set xs. snd x = window_of a)"
    and "no_timer e a \<longrightarrow> window_of b = window_of a \<and> st_didDestroy b = st_didDestroy a"
  using assms unfolding frame_def by blast

lemma timer_at_keeps:
  "st_timer (timer_at e m st) = st_timer st"
  "ea_hasInitialized (st_app (timer_at e m st)) = ea_hasInitialized (st_app st)"
  "ea_sandboxGlobals (st_app (timer_at e m st)) = ea_sandboxGlobals (st_app st)"
  "r_instanceDestroyed (st_result (timer_at e m st)) = r_instanceDestroyed (st_result st)"
  "log_of (timer_at e m st) = log_of st"
  using timer_at_cases [of e m st] by (auto simp: timer_callback_keeps)

lemma log_of_submitted:
  "log_of (submitted sc rej st) = log_of st @ [(sc, window_of st)]"
  by (simp add: submitted_def log_of_def window_of_def submit_keeps)

lemma set_result_keeps:
  "log_of (st\<lparr>st_result := r\<rparr>) = log_of st"
  "window_of (st\<lparr>st_result := r\<rparr>) = window_of st"
  by (simp_all add: log_of_def window_of_def)

lemma result_evaluate_keeps:
  assumes "result_evaluate e call sc v st = (out, st')"
  shows "st_timer st' = st_timer st"
    and "ea_hasInitialized (st_app st') = ea_hasInitialized (st_app st)"
    and "ea_sandboxGlobals (st_app st') = ea_sandboxGlobals (st_app st)"
    and "r_instanceDestroyed (st_result st') = r_instanceDestroyed (st_result st)"
    and "r_instanceDestroyed (st_result st) \<Longrightarrow> log_of st' = log_of st"
    and "\<not> r_instanceDestroyed (st_result st) \<Longrightarrow> \<exists>w. log_of st' = log_of st @ [(sc, w)]"
  using result_evaluate_cases [OF assms]
  by (auto simp: timer_at_keeps submitted_keeps log_of_submitted set_result_keeps)


lemma visit_after_boot_split:
  assumes "visit_after_boot e path info bootOptions disableShoebox st = (out, st')"
  obtains o2 s2 where
    "result_evaluate e Call_runAppInstance (RunAppInstance path bootOptions (serialize info))
       (env_app_returns e) st = (o2, s2)"
    and "frame e (\<lambda>sc. \<not> is_boot_script sc) s2 st'"
proof -
  obtain o2 s2 where r:
    "result_evaluate e Call_runAppInstance (RunAppInstance path bootOptions (serialize info))
       (env_app_returns e) st = (o2, s2)"
    by (cases "result_evaluate e Call_runAppInstance
                 (RunAppInstance path bootOptions (serialize info)) (env_app_returns e) st")
  let ?P = "\<lambda>sc. \<not> is_boot_script sc"
  let ?ret = "case o2 of Inr (Some t) \<Rightarrow> t | _ \<Rightarrow> default_returnedInfo"
  have "frame e ?P s2 st'"
  proof (cases "reconstruct (env_cookie_parse e) ?ret")
    case (Inl err)
    with assms r have "st' = s2"
      by (simp add: visit_after_boot_def runAppInstance_def Let_def)
    then show ?thesis by (simp add: frame_refl)
  next
    case (Inr fastbootInfo)
    let ?s3 = "s2\<lparr>st_result := (st_result s2)\<lparr>r_fastbootInfo := Some fastbootInfo\<rparr>\<rparr>"
    let ?err = "case o2 of Inl err \<Rightarrow> Some err | Inr v \<Rightarrow> None"
    have 3: "frame e ?P s2 ?s3" by (rule frame_set_result) simp
    from assms r Inr have a:
      "and_then (if \<not> disableShoebox then createShoebox e fastbootInfo ?s3 else (Inr (), ?s3))
         (\<lambda>u st4. and_then (finalize e st4)
            (\<lambda>u st5. (case ?err of Some err \<Rightarrow> (Inl err, st5) | None \<Rightarrow> (Inr (), st5))))
       = (out, st')"
      by (simp add: visit_after_boot_def runAppInstance_def Let_def)
    have "frame e ?P ?s3 st'"
      using a
    proof (rule frame_and_then)
      fix o1 s1
      assume "(if \<not> disableShoebox then createShoebox e fastbootInfo ?s3 else (Inr (), ?s3)) = (o1, s1)"
      then show "frame e ?P ?s3 s1"
        by (auto simp: frame_refl split: if_splits intro: frame_createShoebox)
    next
      fix u s1
      assume "and_then (finalize e s1)
                (\<lambda>u st5. (case ?err of Some err \<Rightarrow> (Inl err, st5) | None \<Rightarrow> (Inr (), st5)))
              = (out, st')"
      then show "frame e ?P s1 st'"
      proof (rule frame_and_then)
        fix o1 s5
        assume "finalize e s1 = (o1, s5)"
        then show "frame e ?P s1 s5" by (rule frame_finalize)
      next
        fix u s5
        assume "(case ?err of Some err \<Rightarrow> (Inl err, s5) | None \<Rightarrow> (Inr (), s5)) = (out, st')"
        then have "st' = s5" by (auto split: option.splits)
        then show "frame e ?P s5 st'" by (simp add: frame_refl)
      qed
    qed
    with 3 show ?thesis by (blast intro: frame_trans)
  qed
  with r that show ?thesis by blast
qed

lemma frame_visit_after_boot:
  assumes "visit_after_boot e path info bootOptions disableShoebox st = (out, st')"
  shows "frame e (\<lambda>sc. \<not> is_boot_script sc) st st'"
proof -
  from assms obtain o2 s2 where
    r: "result_evaluate e Call_runAppInstance (RunAppInstance path bootOptions (serialize info))
       (env_app_returns e) st = (o2, s2)"
    and f: "frame e (\<lambda>sc. \<not> is_boot_script sc) s2 st'"
    by (rule visit_after_boot_split)
  have "frame e (\<lambda>sc. \<not> is_boot_script sc) st s2"
    using frame_result_evaluate [OF r, of "\<lambda>sc. \<not> is_boot_script sc"] by simp
  with f show ?thesis by (blast intro: frame_trans)
qed

lemma visit_after_boot_runs:
  assumes "visit_after_boot e path info bootOptions disableShoebox st = (out, st')"
    and "\<not> r_instanceDestroyed (st_result st)"
  shows "\<exists>x \<in> set (drop (length (log_of st)) (log_of st')). is_RunAppInstance (fst x)"
proof -
  from assms(1) obtain o2 s2 where
    r: "result_evaluate e Call_runAppInstance (RunAppInstance path bootOptions (serialize info))
       (env_app_returns e) st = (o2, s2)"
    and f: "frame e (\<lambda>sc. \<not> is_boot_script sc) s2 st'"
    by (rule visit_after_boot_split)
  from result_evaluate_keeps(6) [OF r assms(2)] obtain w where
    1: "log_of s2 = log_of st @ [(RunAppInstance path bootOptions (serialize info), w)]"
    by blast
  from f obtain ys where "log_of st' = log_of s2 @ ys" by (rule frameE)
  with 1 show ?thesis by simp
qed


lemma boot_split:
  assumes "boot e st = (out, st')"
  obtains o1 s1 where
    "result_evaluate e Call_sandboxGlobals (SandboxGlobals (ea_sandboxGlobals (st_app st))) ()
       (st\<lparr>st_app := (st_app st)\<lparr>ea_hasInitialized := True\<rparr>\<rparr>) = (o1, s1)"
    and "frame e is_boot_script s1 st'"
proof -
  let ?st = "st\<lparr>st_app := (st_app st)\<lparr>ea_hasInitialized := True\<rparr>\<rparr>"
  obtain o1 s1 where r:
    "result_evaluate e Call_sandboxGlobals (SandboxGlobals (ea_sandboxGlobals (st_app st))) ()
       ?st = (o1, s1)"
    by (cases "result_evaluate e Call_sandboxGlobals
                 (SandboxGlobals (ea_sandboxGlobals (st_app st))) () ?st")
  have "frame e is_boot_script s1 st'"
  proof (cases o1)
    case (Inl err)
    with assms r have "st' = s1" by (simp add: boot_def Let_def and_then_def)
    then show ?thesis by (simp add: frame_refl)
  next
    case (Inr v)
    with assms r have a:
      "and_then (initializeAppEnvironment e s1)
         (\<lambda>u st2.
            and_then (loadAppFiles e st2)
              (\<lambda>u st3.
                 and_then
                   (case ea_u_bundle (st_app st3) of
                      None \<Rightarrow> build_bundle e st3
                    | Some b \<Rightarrow> if b \<noteq> [] then (Inr b, st3) else build_bundle e st3)
                   (\<lambda>b st4.
                      and_then (result_evaluate e Call_bundle (SourceText b) () st4)
                        (\<lambda>v st5. (Inr (), st5))))) = (out, st')"
      by (simp add: boot_def Let_def and_then_def)
    show ?thesis
      using a
    proof (rule frame_and_then)
      fix o2 s2
      assume "initializeAppEnvironment e s1 = (o2, s2)"
      then show "frame e is_boot_script s1 s2" by (rule frame_initializeAppEnvironment)
    next
      fix u s2
      assume "and_then (loadAppFiles e s2)
              (\<lambda>u st3.
                 and_then
                   (case ea_u_bundle (st_app st3) of
                      None \<Rightarrow> build_bundle e st3
                    | Some b \<Rightarrow> if b \<noteq> [] then (Inr b, st3) else build_bundle e st3)
                   (\<lambda>b st4.
                      and_then (result_evaluate e Call_bundle (SourceText b) () st4)
                        (\<lambda>v st5. (Inr (), st5)))) = (out, st')"
      then show "frame e is_boot_script s2 st'"
      proof (rule frame_and_then)
        fix o3 s3
        assume "loadAppFiles e s2 = (o3, s3)"
        then show "frame e is_boot_script s2 s3" by (rule frame_loadAppFiles)
      next
        fix u s3
        assume "and_then
                   (case ea_u_bundle (st_app s3) of
                      None \<Rightarrow> build_bundle e s3
                    | Some b \<Rightarrow> if b \<noteq> [] then (Inr b, s3) else build_bundle e s3)
                   (\<lambda>b st4.
                      and_then (result_evaluate e Call_bundle (SourceText b) () st4)
                        (\<lambda>v st5. (Inr (), st5))) = (out, st')"
        then show "frame e is_boot_script s3 st'"
        proof (rule frame_and_then)
          fix o4 s4
          assume "(case ea_u_bundle (st_app s3) of
                      None \<Rightarrow> build_bundle e s3
                    | Some b \<Rightarrow> if b \<noteq> [] then (Inr b, s3) else build_bundle e s3) = (o4, s4)"
          then show "frame e is_boot_script s3 s4"
            by (auto simp: frame_refl split: option.splits if_splits intro: frame_build_bundle)
        next
          fix b s4
          assume "and_then (result_evaluate e Call_bundle (SourceText b) () s4)
                        (\<lambda>v st5. (Inr (), st5)) = (out, st')"
          then show "frame e is_boot_script s4 st'"
          proof (rule frame_and_then)
            fix o5 s5
            assume "result_evaluate e Call_bundle (SourceText b) () s4 = (o5, s5)"
            from frame_result_evaluate [OF this, of is_boot_script]
            show "frame e is_boot_script s4 s5" by simp
          next
            fix v s5
            assume "(Inr (), s5) = (out, st')"
            then show "frame e is_boot_script s5 st'" by (simp add: frame_refl)
          qed
        qed
      qed
    qed
  qed
  with r that show ?thesis by blast
qed





lemma visitRoute_initialized:
  assumes "visitRoute e path info bootOptions disableShoebox st = (out, st')"
    and "ea_hasInitialized (st_app st)"
  shows "frame e (\<lambda>sc. \<not> is_boot_script sc) st st'"
    and "\<not> r_instanceDestroyed (st_result st) \<Longrightarrow>
         \<exists>x \<in> set (drop (length (log_of st)) (log_of st')). is_RunAppInstance (fst x)"
proof -
  from assms have v: "visit_after_boot e path info bootOptions disableShoebox st = (out, st')"
    by (simp add: visitRoute_def and_then_def)
  from v show "frame e (\<lambda>sc. \<not> is_boot_script sc) st st'" by (rule frame_visit_after_boot)
  assume "\<not> r_instanceDestroyed (st_result st)"
  with v show "\<exists>x \<in> set (drop (length (log_of st)) (log_of st')). is_RunAppInstance (fst x)"
    by (rule visit_after_boot_runs)
qed



lemma visitRoute_undisturbed:
  assumes v: "visitRoute e path info bootOptions disableShoebox st = (out, st')"
    and h: "no_timer e st" "\<not> r_instanceDestroyed (st_result st)"
  shows "st_didDestroy st' = st_didDestroy st"
proof -
  have k: "st_didDestroy b = st_didDestroy a" if "frame e P a b" "no_timer e a" for P a b
    using that unfolding frame_def by blast
  have n: "no_timer e b" if "frame e P a b" "no_timer e a" for P a b
    using that unfolding frame_def no_timer_def by auto
  show ?thesis
  proof (cases "ea_hasInitialized (st_app st)")
    case True
    from visitRoute_initialized(1) [OF v True] h(1) show ?thesis by (rule k)
  next
    case False
    let ?st0 = "st\<lparr>st_app := (st_app st)\<lparr>ea_hasInitialized := True\<rparr>\<rparr>"
    obtain ob sb where b: "boot e st = (ob, sb)" by (cases "boot e st")
    from b obtain o1 s1 where
      r: "result_evaluate e Call_sandboxGlobals (SandboxGlobals (ea_sandboxGlobals (st_app st))) () ?st0 = (o1, s1)"
      and f1: "frame e is_boot_script s1 sb"
      by (rule boot_split)
    have f2: "frame e (\<lambda>sc. \<not> is_boot_script sc) sb st'"
    proof (cases ob)
      case (Inl err)
      with v False b have "st' = sb" by (simp add: visitRoute_def and_then_def)
      then show ?thesis by (simp add: frame_refl)
    next
      case (Inr w)
      with v False b have "visit_after_boot e path info bootOptions disableShoebox sb = (out, st')"
        by (simp add: visitRoute_def and_then_def)
      then show ?thesis by (rule frame_visit_after_boot)
    qed
    have n0: "no_timer e ?st0" using h(1) by (simp add: no_timer_def)
    have t: "timer_at e m s = s" if "no_timer e s" for m s
      using that by (rule timer_at_no_timer)
    have ns: "no_timer e (submitted sc rej s)" if "no_timer e s" for sc rej s
      using that by (simp add: no_timer_def submitted_keeps)
    from result_evaluate_cases [OF r]
    have d1: "st_didDestroy s1 = st_didDestroy st" and n1: "no_timer e s1"
      using n0 by (auto simp: t ns submitted_keeps no_timer_def)
    from k [OF f1 n1] k [OF f2 n [OF f1 n1]] d1 show ?thesis by simp
  qed
qed


lemma result_setContent_keeps:
  assumes "result_setContent e markup st = (out, st')"
  shows "ea_hasInitialized (st_app st') = ea_hasInitialized (st_app st)"
    and "ea_sandboxGlobals (st_app st') = ea_sandboxGlobals (st_app st)"
    and "log_of st' = log_of st"
    and "window_of st' = window_of st"
    and "r_instanceDestroyed (st_result st') = r_instanceDestroyed (st_result st)"
    and "st_didDestroy st' = st_didDestroy st"
    and "st_timer st' = st_timer st"
    and "env_rejects e Call_setContent = None \<and> \<not> r_instanceDestroyed (st_result st) \<longrightarrow>
           body_of st' = []"
proof -
  define s where "s = (if env_rejects e Call_setContent \<noteq> None then st
            else st\<lparr>st_app := (st_app st)\<lparr>ea_page := page_setContent markup (ea_page (st_app st))\<rparr>\<rparr>)"
  have s: "ea_hasInitialized (st_app s) = ea_hasInitialized (st_app st)"
    "ea_sandboxGlobals (st_app s) = ea_sandboxGlobals (st_app st)"
    "log_of s = log_of st" "window_of s = window_of st"
    "st_result s = st_result st" "st_didDestroy s = st_didDestroy st"
    "st_timer s = st_timer st"
    by (simp_all add: s_def log_of_def window_of_def page_setContent_def)
  have b: "env_rejects e Call_setContent = None \<longrightarrow> body_of s = []"
    by (simp add: s_def body_of_def page_setContent_def)
  from assms have c: "(r_instanceDestroyed (st_result st) \<and> st' = st) \<or> st' = s
      \<or> (\<exists>r'. r_instanceDestroyed r' = r_instanceDestroyed (st_result s) \<and> st' = s\<lparr>st_result := r'\<rparr>)"
    unfolding result_setContent_def Let_def s_def [symmetric]
    by (auto split: if_splits sum.splits dest: setContent_keeps_destroyed)
  from c b show "env_rejects e Call_setContent = None \<and> \<not> r_instanceDestroyed (st_result st) \<longrightarrow>
           body_of st' = []"
    by (auto simp: body_of_def)
  from c show "ea_hasInitialized (st_app st') = ea_hasInitialized (st_app st)"
    and "ea_sandboxGlobals (st_app st') = ea_sandboxGlobals (st_app st)"
    and "log_of st' = log_of st"
    and "window_of st' = window_of st"
    and "r_instanceDestroyed (st_result st') = r_instanceDestroyed (st_result st)"
    and "st_didDestroy st' = st_didDestroy st"
    and "st_timer st' = st_timer st"
    using s by (auto simp: set_result_keeps)
qed

lemma catch_visit_error_keeps:
  assumes "catch_visit_error error st = (out, st')"
  shows "st_app st' = st_app st"
    and "\<not> st_didDestroy st \<Longrightarrow> out = Inr () \<and> r_error (st_result st') = Some error"
  using assms
  by (auto simp: catch_visit_error_def Let_def split: if_splits js_error.splits option.splits)


lemma visit_try_split:
  assumes "visit_try e path info bootOptions disableShoebox st = (ob, st')"
  obtains oc sc where "clearPageStorage e st = (oc, sc)"
    and "frame e (\<lambda>sc. False) st sc" and "log_of sc = log_of st"
    and "(\<exists>err. oc = Inl err \<and> ob = Inl err \<and> st' = sc)
         \<or> visitRoute e path info bootOptions disableShoebox sc = (ob, st')"
proof -
  obtain oc sc where c: "clearPageStorage e st = (oc, sc)"
    by (cases "clearPageStorage e st")
  from assms c have "(\<exists>err. oc = Inl err \<and> ob = Inl err \<and> st' = sc)
         \<or> visitRoute e path info bootOptions disableShoebox sc = (ob, st')"
    by (cases oc) (auto simp: visit_try_def and_then_def)
  with c frame_clearPageStorage [OF c] log_clearPageStorage [OF c] that show ?thesis
    by blast
qed




lemma visit_split:
  assumes v: "visit e app path options = (out, app')"
  obtains (early) err where "out = Inl err"
      and "ea_hasInitialized app' = ea_hasInitialized app"
      and "ea_sandboxGlobals app' = ea_sandboxGlobals app"
      and "pg_log (ea_page app') = pg_log (ea_page app)"
      and "pg_window (ea_page app') = pg_window (ea_page app)"
  | (tried) info bootOptions st1 ob st3 where
      "ea_hasInitialized (st_app st1) = ea_hasInitialized app"
      and "ea_sandboxGlobals (st_app st1) = ea_sandboxGlobals app"
      and "log_of st1 = pg_log (ea_page app)"
      and "window_of st1 = pg_window (ea_page app)"
      and "\<not> r_instanceDestroyed (st_result st1)"
      and "\<not> st_didDestroy st1"
      and "undisturbed e options \<longrightarrow> no_timer e st1"
      and "visit_try e path info bootOptions (vo_disableShoebox options) st1 = (ob, st3)"
      and "app' = st_app st3"
      and "\<forall>u. ob = Inr u \<longrightarrow> out = Inr (st_result st3)"
      and "\<forall>error. ob = Inl error \<and> \<not> st_didDestroy st3 \<longrightarrow>
             (\<exists>res. out = Inr res \<and> r_error res = Some error)"
      and "env_rejects e Call_setContent = None \<longrightarrow> body_of st1 = []"
proof -
  define markup where "markup = (case vo_html options of
                      None \<Rightarrow> ea_html app
                    | Some h \<Rightarrow> if h \<noteq> [] then h else ea_html app)"
  define bootOptions where "bootOptions = buildBootOptions e
     (case vo_shouldRender options of None \<Rightarrow> True | Some b \<Rightarrow> b)"
  define init where "init = \<lparr>st_app = app, st_result = new_Result None, st_didDestroy = False,
                      st_timer = None\<rparr>"
  define arm where "arm = (case vo_destroyAppInstanceInMs options of
                                     None \<Rightarrow> None
                                   | Some ms \<Rightarrow> if ms > 0 then Some ms else None)"
  let ?mk = "new_FastBootInfo (env_cookie_parse e) (vo_request options) (vo_response options)
                \<lparr>o_hostWhitelist = ea_hostWhitelist app, o_metadata = vo_metadata options\<rparr> None"
  have i: "ea_hasInitialized (st_app init) = ea_hasInitialized app"
    "ea_sandboxGlobals (st_app init) = ea_sandboxGlobals app"
    "log_of init = pg_log (ea_page app)" "window_of init = pg_window (ea_page app)"
    "\<not> r_instanceDestroyed (st_result init)" "\<not> st_didDestroy init"
    by (simp_all add: init_def log_of_def window_of_def new_Result_def)
  show ?thesis
  proof (cases ?mk)
    case (Inl err)
    with v have "out = Inl err" "app' = app" by (simp_all add: visit_def Let_def)
    with early show ?thesis by simp
  next
    case (Inr info)
    obtain os st where sc: "result_setContent e markup init = (os, st)"
      by (cases "result_setContent e markup init")
    note k = result_setContent_keeps [OF sc]
    show ?thesis
    proof (cases os)
      case (Inl err)
      with v Inr sc have "out = Inl err" "app' = st_app st"
        by (simp_all add: visit_def Let_def markup_def init_def)
      with early [of err] k i show ?thesis by (simp add: log_of_def window_of_def)
    next
      case (Inr u)
      define st1 where "st1 = st\<lparr>st_timer := arm\<rparr>"
      obtain ob st3 where t:
        "visit_try e path info bootOptions (vo_disableShoebox options) st1 = (ob, st3)"
        by (cases "visit_try e path info bootOptions (vo_disableShoebox options) st1")
      have s1: "ea_hasInitialized (st_app st1) = ea_hasInitialized app"
        "ea_sandboxGlobals (st_app st1) = ea_sandboxGlobals app"
        "log_of st1 = pg_log (ea_page app)" "window_of st1 = pg_window (ea_page app)"
        "\<not> r_instanceDestroyed (st_result st1)" "\<not> st_didDestroy st1"
        using k i by (simp_all add: st1_def log_of_def window_of_def)
      have n: "undisturbed e options \<longrightarrow> no_timer e st1"
        by (auto simp: undisturbed_def no_timer_def st1_def arm_def split: option.splits)
      from v \<open>?mk = Inr info\<close> sc Inr t have r:
        "(case (ob, st3) of
            (Inr u, st3) \<Rightarrow> (Inr (st_result st3), st_app st3)
          | (Inl error, st3) \<Rightarrow>
              (case catch_visit_error error st3 of
                 (Inl err, st4) \<Rightarrow> (Inl err, st_app st4)
               | (Inr u, st4) \<Rightarrow> (Inr (st_result st4), st_app st4))) = (out, app')"
        by (simp add: visit_def Let_def markup_def init_def bootOptions_def st1_def arm_def)
      have a: "app' = st_app st3"
        using r by (auto split: sum.splits prod.splits dest: catch_visit_error_keeps(1))
      have b: "\<forall>u. ob = Inr u \<longrightarrow> out = Inr (st_result st3)"
        using r by auto
      have c: "\<forall>error. ob = Inl error \<and> \<not> st_didDestroy st3 \<longrightarrow>
             (\<exists>res. out = Inr res \<and> r_error res = Some error)"
        using r by (auto split: sum.splits prod.splits dest: catch_visit_error_keeps(2))
      have d: "env_rejects e Call_setContent = None \<longrightarrow> body_of st1 = []"
        using k(8) i(5) by (simp add: st1_def body_of_def)
      from tried [OF s1 n t a b c d] show ?thesis .
    qed
  qed
qed







section \<open>What a visit leaves at the end of the body\<close>

lemma keeps_body_refl: "keeps_body e st st"
  by (simp add: keeps_body_def)

lemma keeps_body_trans:
  assumes "keeps_body e a b" and "keeps_body e b c"
  shows "keeps_body e a c"
proof -
  from assms(1) have "st_timer b = st_timer a" by (simp add: keeps_body_def)
  then have "no_timer e b = no_timer e a" by (simp add: no_timer_def)
  with assms show ?thesis by (simp add: keeps_body_def)
qed

lemma keeps_body_and_then:
  assumes "and_then m f = (out, s2)"
    and "\<And>o1 s1. m = (o1, s1) \<Longrightarrow> keeps_body e s0 s1"
    and "\<And>a s1. m = (Inr a, s1) \<Longrightarrow> f a s1 = (out, s2) \<Longrightarrow> keeps_body e s1 s2"
  shows "keeps_body e s0 s2"
proof (cases m)
  case (Pair o1 s1)
  show ?thesis
  proof (cases o1)
    case (Inl err)
    with Pair assms(1) have "s2 = s1" by (simp add: and_then_def)
    with assms(2) [OF Pair] show ?thesis by simp
  next
    case (Inr a)
    with Pair assms(1) have "f a s1 = (out, s2)" by (simp add: and_then_def)
    with assms(2) [OF Pair] assms(3) Pair Inr show ?thesis
      by (blast intro: keeps_body_trans)
  qed
qed

lemma timer_callback_keeps_info:
  "r_fastbootInfo (st_result (timer_callback e ms st)) = r_fastbootInfo (st_result st)"
  by (simp add: timer_callback_def Let_def split: option.splits js_error.splits)

lemma keeps_body_timer_at: "keeps_body e st (timer_at e m st)"
proof -
  from timer_at_cases [of e m st] show ?thesis
  proof
    assume "timer_at e m st = st"
    then show ?thesis by (simp add: keeps_body_refl)
  next
    assume "\<not> no_timer e st \<and> (\<exists>ms. timer_at e m st = timer_callback e ms st)"
    then obtain ms where n: "\<not> no_timer e st" and t: "timer_at e m st = timer_callback e ms st"
      by blast
    show ?thesis
      unfolding t using n
      by (simp add: keeps_body_def timer_callback_keeps timer_callback_keeps_info)
  qed
qed

lemma keeps_body_submitted:
  assumes "\<not> is_ShoeboxScript sc"
  shows "keeps_body e st (submitted sc rej st)"
  using assms
  by (cases sc) (simp_all add: keeps_body_def submitted_def submit_def body_of_def Let_def)

lemma keeps_body_set_result:
  "r_instanceDestroyed r' = r_instanceDestroyed (st_result st) \<Longrightarrow>
   r_fastbootInfo r' = r_fastbootInfo (st_result st) \<Longrightarrow>
   keeps_body e st (st\<lparr>st_result := r'\<rparr>)"
  by (simp add: keeps_body_def body_of_def)

lemma keeps_body_result_evaluate:
  assumes "result_evaluate e call sc v st = (out, st')" and "\<not> is_ShoeboxScript sc"
  shows "keeps_body e st st'"
proof -
  let ?a = "timer_at e (Before call) st"
  let ?b = "submitted sc (env_rejects e call \<noteq> None) ?a"
  let ?c = "timer_at e (In_flight call) ?b"
  have 1: "keeps_body e st ?a" by (rule keeps_body_timer_at)
  have 2: "keeps_body e ?a ?b" using assms(2) by (rule keeps_body_submitted)
  have 3: "keeps_body e ?b ?c" by (rule keeps_body_timer_at)
  have abc: "keeps_body e st ?c" using 1 2 3 by (blast intro: keeps_body_trans)
  from result_evaluate_cases [OF assms(1)] show ?thesis
  proof
    assume "r_instanceDestroyed (st_result ?a) \<and> st' = ?a \<and> out = Inr None"
    with 1 show ?thesis by simp
  next
    assume "\<not> r_instanceDestroyed (st_result ?a)
            \<and> (\<exists>r'. r_instanceDestroyed r' = r_instanceDestroyed (st_result ?c)
                  \<and> r_fastbootInfo r' = r_fastbootInfo (st_result ?c)
                  \<and> st' = ?c\<lparr>st_result := r'\<rparr>)"
    then obtain r' where "r_instanceDestroyed r' = r_instanceDestroyed (st_result ?c)"
      and "r_fastbootInfo r' = r_fastbootInfo (st_result ?c)"
      and s: "st' = ?c\<lparr>st_result := r'\<rparr>" by blast
    then have "keeps_body e ?c st'" by (simp add: keeps_body_set_result)
    with abc show ?thesis by (blast intro: keeps_body_trans)
  qed
qed

lemma keeps_body_clearPageStorage:
  assumes a: "clearPageStorage e st = (out, st')"
  shows "keeps_body e st st'"
proof -
  let ?a = "timer_at e (Before Call_clearPageStorage) st"
  let ?b = "timer_at e (In_flight Call_clearPageStorage) ?a"
  from a have "st' = ?b"
    by (auto simp: clearPageStorage_def Let_def split: option.splits)
  moreover have "keeps_body e st ?b"
    using keeps_body_timer_at [of e st] keeps_body_timer_at [of e ?a]
    by (blast intro: keeps_body_trans)
  ultimately show ?thesis by simp
qed

lemma keeps_body_initializeAppEnvironment:
  assumes "initializeAppEnvironment e st = (out, st')"
  shows "keeps_body e st st'"
proof -
  obtain o1 s1 where r: "result_evaluate e Call_initializeAppEnvironment
          (InitializeAppEnvironment (ea_appName (st_app st)) (ea_config (st_app st))) () st = (o1, s1)"
    by (cases "result_evaluate e Call_initializeAppEnvironment
          (InitializeAppEnvironment (ea_appName (st_app st)) (ea_config (st_app st))) () st")
  from assms r have "st' = s1"
    by (auto simp: initializeAppEnvironment_def and_then_def split: sum.splits)
  with keeps_body_result_evaluate [OF r] show ?thesis by simp
qed

lemma keeps_body_evaluate_files:
  "evaluate_files e call filePaths st = (out, st') \<Longrightarrow> keeps_body e st st'"
proof (induction filePaths arbitrary: st)
  case Nil
  then show ?case by (simp add: keeps_body_refl)
next
  case (Cons filePath filePaths)
  show ?case
  proof (cases "env_readFileSync e filePath")
    case (Inl err)
    with Cons.prems show ?thesis by (simp add: keeps_body_refl)
  next
    case (Inr src)
    obtain o1 s1 where r: "result_evaluate e (call filePath) (SourceText src) () st = (o1, s1)"
      by (cases "result_evaluate e (call filePath) (SourceText src) () st")
    have f: "keeps_body e st s1"
      using keeps_body_result_evaluate [OF r] by simp
    show ?thesis
    proof (cases o1)
      case (Inl err)
      with Cons.prems Inr r have "st' = s1" by simp
      with f show ?thesis by simp
    next
      case (Inr v)
      with Cons.prems \<open>env_readFileSync e filePath = Inr src\<close> r
      have "evaluate_files e call filePaths s1 = (out, st')" by simp
      from Cons.IH [OF this] f show ?thesis by (blast intro: keeps_body_trans)
    qed
  qed
qed

lemma keeps_body_loadAppFiles:
  assumes "loadAppFiles e st = (out, st')"
  shows "keeps_body e st st'"
  using assms unfolding loadAppFiles_def
  by (rule keeps_body_and_then) (auto intro: keeps_body_evaluate_files)

lemma keeps_body_build_bundle:
  "build_bundle e st = (out, st') \<Longrightarrow> keeps_body e st st'"
  by (auto simp: build_bundle_def keeps_body_def body_of_def no_timer_def split: sum.splits)

lemma keeps_body_boot:
  assumes "boot e st = (out, st')"
  shows "keeps_body e st st'"
proof -
  let ?st = "st\<lparr>st_app := (st_app st)\<lparr>ea_hasInitialized := True\<rparr>\<rparr>"
  have 0: "keeps_body e st ?st"
    by (simp add: keeps_body_def body_of_def no_timer_def)
  from assms have a:
    "and_then
        (result_evaluate e Call_sandboxGlobals
           (SandboxGlobals (ea_sandboxGlobals (st_app ?st))) () ?st)
        (\<lambda>v st1.
           and_then (initializeAppEnvironment e st1)
             (\<lambda>u st2.
                and_then (loadAppFiles e st2)
                  (\<lambda>u st3.
                     and_then
                       (case ea_u_bundle (st_app st3) of
                          None \<Rightarrow> build_bundle e st3
                        | Some b \<Rightarrow> if b \<noteq> [] then (Inr b, st3) else build_bundle e st3)
                       (\<lambda>b st4.
                          and_then (result_evaluate e Call_bundle (SourceText b) () st4)
                            (\<lambda>v st5. (Inr (), st5)))))) = (out, st')"
    by (simp add: boot_def Let_def)
  have "keeps_body e ?st st'"
    using a
  proof (rule keeps_body_and_then)
    fix o1 s1
    assume "result_evaluate e Call_sandboxGlobals
           (SandboxGlobals (ea_sandboxGlobals (st_app ?st))) () ?st = (o1, s1)"
    from keeps_body_result_evaluate [OF this] show "keeps_body e ?st s1" by simp
  next
    fix v s1
    assume "and_then (initializeAppEnvironment e s1)
             (\<lambda>u st2.
                and_then (loadAppFiles e st2)
                  (\<lambda>u st3.
                     and_then
                       (case ea_u_bundle (st_app st3) of
                          None \<Rightarrow> build_bundle e st3
                        | Some b \<Rightarrow> if b \<noteq> [] then (Inr b, st3) else build_bundle e st3)
                       (\<lambda>b st4.
                          and_then (result_evaluate e Call_bundle (SourceText b) () st4)
                            (\<lambda>v st5. (Inr (), st5))))) = (out, st')"
    then show "keeps_body e s1 st'"
    proof (rule keeps_body_and_then)
      fix o2 s2
      assume "initializeAppEnvironment e s1 = (o2, s2)"
      then show "keeps_body e s1 s2" by (rule keeps_body_initializeAppEnvironment)
    next
      fix u s2
      assume "and_then (loadAppFiles e s2)
              (\<lambda>u st3.
                 and_then
                   (case ea_u_bundle (st_app st3) of
                      None \<Rightarrow> build_bundle e st3
                    | Some b \<Rightarrow> if b \<noteq> [] then (Inr b, st3) else build_bundle e st3)
                   (\<lambda>b st4.
                      and_then (result_evaluate e Call_bundle (SourceText b) () st4)
                        (\<lambda>v st5. (Inr (), st5)))) = (out, st')"
      then show "keeps_body e s2 st'"
      proof (rule keeps_body_and_then)
        fix o3 s3
        assume "loadAppFiles e s2 = (o3, s3)"
        then show "keeps_body e s2 s3" by (rule keeps_body_loadAppFiles)
      next
        fix u s3
        assume "and_then
                   (case ea_u_bundle (st_app s3) of
                      None \<Rightarrow> build_bundle e s3
                    | Some b \<Rightarrow> if b \<noteq> [] then (Inr b, s3) else build_bundle e s3)
                   (\<lambda>b st4.
                      and_then (result_evaluate e Call_bundle (SourceText b) () st4)
                        (\<lambda>v st5. (Inr (), st5))) = (out, st')"
        then show "keeps_body e s3 st'"
        proof (rule keeps_body_and_then)
          fix o4 s4
          assume "(case ea_u_bundle (st_app s3) of
                      None \<Rightarrow> build_bundle e s3
                    | Some b \<Rightarrow> if b \<noteq> [] then (Inr b, s3) else build_bundle e s3) = (o4, s4)"
          then show "keeps_body e s3 s4"
            by (auto simp: keeps_body_refl split: option.splits if_splits
                intro: keeps_body_build_bundle)
        next
          fix b s4
          assume "and_then (result_evaluate e Call_bundle (SourceText b) () s4)
                        (\<lambda>v st5. (Inr (), st5)) = (out, st')"
          then show "keeps_body e s4 st'"
          proof (rule keeps_body_and_then)
            fix o5 s5
            assume "result_evaluate e Call_bundle (SourceText b) () s4 = (o5, s5)"
            from keeps_body_result_evaluate [OF this]
            show "keeps_body e s4 s5" by simp
          next
            fix v s5
            assume "(Inr (), s5) = (out, st')"
            then show "keeps_body e s5 st'" by (simp add: keeps_body_refl)
          qed
        qed
      qed
    qed
  qed
  with 0 show ?thesis by (rule keeps_body_trans)
qed

lemma keeps_body_finalize:
  assumes "finalize e st = (out, st')"
  shows "keeps_body e st st'"
proof (cases "r_finalized (st_result st)")
  case True
  with assms show ?thesis by (simp add: finalize_def keeps_body_refl)
next
  case False
  obtain o1 s1 where r: "result_evaluate e Call_finalize RemoveEmberApplication () st = (o1, s1)"
    by (cases "result_evaluate e Call_finalize RemoveEmberApplication () st")
  have f: "keeps_body e st s1"
    using keeps_body_result_evaluate [OF r] by simp
  from assms False r
  have "st' = s1 \<or> st' = s1\<lparr>st_result := (st_result s1)\<lparr>r_finalized := True\<rparr>\<rparr>"
    by (auto simp: finalize_def and_then_def split: sum.splits)
  moreover have "keeps_body e s1 (s1\<lparr>st_result := (st_result s1)\<lparr>r_finalized := True\<rparr>\<rparr>)"
    by (rule keeps_body_set_result) simp_all
  ultimately show ?thesis using f by (auto intro: keeps_body_trans)
qed

lemma keeps_bodyE:
  assumes "keeps_body e a b"
  shows "st_timer b = st_timer a"
    and "r_instanceDestroyed (st_result b) = r_instanceDestroyed (st_result a)"
    and "r_fastbootInfo (st_result b) = r_fastbootInfo (st_result a)"
    and "no_timer e a \<Longrightarrow> body_of b = body_of a"
    and "no_timer e a \<Longrightarrow> no_timer e b"
  using assms by (simp_all add: keeps_body_def no_timer_def)

lemma timer_at_keeps_info:
  "r_fastbootInfo (st_result (timer_at e m st)) = r_fastbootInfo (st_result st)"
  using timer_at_cases [of e m st] by (auto simp: timer_callback_keeps_info)

lemma result_evaluate_info:
  assumes "result_evaluate e call sc v st = (out, st')"
  shows "r_fastbootInfo (st_result st') = r_fastbootInfo (st_result st)"
  using result_evaluate_cases [OF assms]
  by (auto simp: timer_at_keeps_info submitted_keeps)

lemma createShoebox_loop_info:
  "createShoebox_loop e sb st = (out, st') \<Longrightarrow>
   r_fastbootInfo (st_result st') = r_fastbootInfo (st_result st)"
proof (induction sb arbitrary: st)
  case Nil
  then show ?case by simp
next
  case (Cons kv sb)
  obtain key v where kv: "kv = (key, v)" by (cases kv)
  let ?t = "escapeJSONString (env_JSON_stringify e v)"
  obtain o1 s1 where r: "result_evaluate e (Call_shoebox key) (ShoeboxScript key ?t) () st = (o1, s1)"
    by (cases "result_evaluate e (Call_shoebox key) (ShoeboxScript key ?t) () st")
  note i = result_evaluate_info [OF r]
  show ?case
  proof (cases o1)
    case (Inl err)
    with Cons.prems kv r have "st' = s1" by (simp add: Let_def)
    with i show ?thesis by simp
  next
    case (Inr w)
    with Cons.prems kv r have "createShoebox_loop e sb s1 = (out, st')" by (simp add: Let_def)
    from Cons.IH [OF this] i show ?thesis by simp
  qed
qed

lemma result_evaluate_answers:
  assumes "\<not> r_instanceDestroyed (st_result st)" and "env_rejects e call = None"
    and "env_harvest e call = Inr h" and "no_timer e st"
    and "result_evaluate e call sc v st = (out, st')"
  shows "out = Inr (Some v)"
proof -
  let ?st1 = "submitted sc False st"
  have n: "no_timer e ?st1" using assms(4) by (simp add: no_timer_def submitted_def)
  from assms have r: "(case evaluate (st_result st) (Inr v) (Inr h) of
              Inl err \<Rightarrow> (Inl err, ?st1)
            | Inr (v, r') \<Rightarrow> (Inr v, ?st1\<lparr>st_result := r'\<rparr>)) = (out, st')"
    by (simp add: result_evaluate_def timer_at_no_timer n Let_def submitted_keeps)
  from assms(1) have "\<exists>r'. evaluate (st_result st) (Inr v) (Inr h) = Inr (Some v, r')"
    by (simp add: evaluate_def tryWithPageAwareness_def reflectContents_def)
  with r show ?thesis by auto
qed

lemma visit_after_boot_enabled:
  assumes v: "visit_after_boot e path info bootOptions False st = (Inr u, st')"
    and n: "no_timer e st" and nd: "\<not> r_instanceDestroyed (st_result st)"
    and acc: "\<forall>key. env_rejects e (Call_shoebox key) = None"
  shows "\<exists>fi. r_fastbootInfo (st_result st') = Some fi
           \<and> (\<forall>h. env_rejects e Call_runAppInstance = None
                    \<and> env_harvest e Call_runAppInstance = Inr h \<longrightarrow>
                  fi_shoebox fi = snd (snd (snd (env_app_returns e))))
           \<and> body_of st'
               = body_of st
                 @ map (\<lambda>(key, v). shoebox_element key (escapeJSONString (env_JSON_stringify e v)))
                     (case fi_shoebox fi of None \<Rightarrow> [] | Some sb \<Rightarrow> sb)"
proof -
  let ?f = "\<lambda>(key, v). shoebox_element key (escapeJSONString (env_JSON_stringify e v))"
  obtain o2 s2 where r:
    "result_evaluate e Call_runAppInstance (RunAppInstance path bootOptions (serialize info))
       (env_app_returns e) st = (o2, s2)"
    by (cases "result_evaluate e Call_runAppInstance
                 (RunAppInstance path bootOptions (serialize info)) (env_app_returns e) st")
  from keeps_body_result_evaluate [OF r] have k2: "keeps_body e st s2" by simp
  note e2 = keeps_bodyE [OF k2]
  let ?ret = "case o2 of Inr (Some t) \<Rightarrow> t | _ \<Rightarrow> default_returnedInfo"
  let ?err = "case o2 of Inl err \<Rightarrow> Some err | Inr v \<Rightarrow> None"
  show ?thesis
  proof (cases "reconstruct (env_cookie_parse e) ?ret")
    case (Inl err)
    with v r show ?thesis
      by (simp add: visit_after_boot_def runAppInstance_def Let_def)
  next
    case (Inr fi)
    let ?s3 = "s2\<lparr>st_result := (st_result s2)\<lparr>r_fastbootInfo := Some fi\<rparr>\<rparr>"
    from v r Inr have a:
      "and_then (createShoebox e fi ?s3)
         (\<lambda>u st4. and_then (finalize e st4)
            (\<lambda>u st5. (case ?err of Some err \<Rightarrow> (Inl err, st5) | None \<Rightarrow> (Inr (), st5))))
       = (Inr u, st')"
      by (simp add: visit_after_boot_def runAppInstance_def Let_def)
    obtain o4 s4 where c: "createShoebox e fi ?s3 = (o4, s4)"
      by (cases "createShoebox e fi ?s3")
    from a c obtain w where o4: "o4 = Inr w"
      and a2: "and_then (finalize e s4)
            (\<lambda>u st5. (case ?err of Some err \<Rightarrow> (Inl err, st5) | None \<Rightarrow> (Inr (), st5)))
          = (Inr u, st')"
      by (cases o4) (simp_all add: and_then_def)
    obtain o5 s5 where f: "finalize e s4 = (o5, s5)"
      by (cases "finalize e s4")
    from a2 f have s5: "st' = s5"
      by (cases o5) (auto simp: and_then_def split: option.splits)
    have n3: "no_timer e ?s3" using e2(5) [OF n] by (simp add: no_timer_def)
    have nd3: "\<not> r_instanceDestroyed (st_result ?s3)" using e2(2) nd by simp
    have b3: "body_of ?s3 = body_of st" using e2(4) [OF n] by (simp add: body_of_def)
    have b4: "body_of s4 = body_of ?s3
                @ map ?f (case fi_shoebox fi of None \<Rightarrow> [] | Some sb \<Rightarrow> sb)"
    proof (cases "fi_shoebox fi")
      case None
      with c have "s4 = ?s3" by (simp add: createShoebox_def)
      with None show ?thesis by simp
    next
      case (Some sb)
      with c o4 have "createShoebox_loop e sb ?s3 = (Inr w, s4)"
        by (simp add: createShoebox_def)
      from createShoebox_loop_inserts [OF nd3 acc n3 this] Some show ?thesis
        by (simp add: body_of_def)
    qed
    have i4: "r_fastbootInfo (st_result s4) = Some fi"
    proof (cases "fi_shoebox fi")
      case None
      with c have "s4 = ?s3" by (simp add: createShoebox_def)
      then show ?thesis by simp
    next
      case (Some sb)
      with c have "createShoebox_loop e sb ?s3 = (o4, s4)"
        by (simp add: createShoebox_def)
      from createShoebox_loop_info [OF this] show ?thesis by simp
    qed
    from frame_createShoebox [OF c] have "st_timer s4 = st_timer ?s3"
      unfolding frame_def by simp
    with n3 have n4: "no_timer e s4" by (simp add: no_timer_def)
    note e5 = keeps_bodyE [OF keeps_body_finalize [OF f]]
    have l: "fi_shoebox fi = snd (snd (snd (env_app_returns e)))"
      if "env_rejects e Call_runAppInstance = None" "env_harvest e Call_runAppInstance = Inr h"
      for h
    proof -
      from result_evaluate_answers [OF nd that n r] have "o2 = Inr (Some (env_app_returns e))" .
      with Inr show ?thesis
        by (auto simp: reconstruct_def new_FastBootInfo_def Let_def
            split: prod.splits option.splits sum.splits)
    qed
    from e5(3) i4 s5 have "r_fastbootInfo (st_result st') = Some fi" by simp
    moreover from e5(4) [OF n4] b4 b3 s5
    have "body_of st' = body_of st
            @ map ?f (case fi_shoebox fi of None \<Rightarrow> [] | Some sb \<Rightarrow> sb)" by simp
    ultimately show ?thesis using l by blast
  qed
qed

lemma visit_try_enabled:
  assumes t: "visit_try e path info bootOptions False st = (Inr u, st')"
    and n: "no_timer e st" and nd: "\<not> r_instanceDestroyed (st_result st)"
    and acc: "\<forall>key. env_rejects e (Call_shoebox key) = None"
  shows "\<exists>fi. r_fastbootInfo (st_result st') = Some fi
           \<and> (\<forall>h. env_rejects e Call_runAppInstance = None
                    \<and> env_harvest e Call_runAppInstance = Inr h \<longrightarrow>
                  fi_shoebox fi = snd (snd (snd (env_app_returns e))))
           \<and> body_of st'
               = body_of st
                 @ map (\<lambda>(key, v). shoebox_element key (escapeJSONString (env_JSON_stringify e v)))
                     (case fi_shoebox fi of None \<Rightarrow> [] | Some sb \<Rightarrow> sb)"
proof -
  obtain oc sc where c: "clearPageStorage e st = (oc, sc)"
    by (cases "clearPageStorage e st")
  note k = keeps_bodyE [OF keeps_body_clearPageStorage [OF c]]
  from t c have v: "visitRoute e path info bootOptions False sc = (Inr u, st')"
    by (cases oc) (simp_all add: visit_try_def and_then_def)
  have "\<exists>sb. visit_after_boot e path info bootOptions False sb = (Inr u, st')
          \<and> keeps_body e sc sb"
  proof (cases "ea_hasInitialized (st_app sc)")
    case True
    with v show ?thesis by (auto simp: visitRoute_def and_then_def keeps_body_refl)
  next
    case False
    obtain ob sb where b: "boot e sc = (ob, sb)" by (cases "boot e sc")
    from v False b have "visit_after_boot e path info bootOptions False sb = (Inr u, st')"
      by (cases ob) (simp_all add: visitRoute_def and_then_def)
    with keeps_body_boot [OF b] show ?thesis by blast
  qed
  then obtain sb where a: "visit_after_boot e path info bootOptions False sb = (Inr u, st')"
    and kb: "keeps_body e sc sb" by blast
  note k2 = keeps_bodyE [OF kb]
  have nb: "no_timer e sb" using k(5) [OF n] k2(5) by simp
  have ndb: "\<not> r_instanceDestroyed (st_result sb)" using k(2) k2(2) nd by simp
  have bb: "body_of sb = body_of st" using k(4) [OF n] k2(4) [OF k(5) [OF n]] by simp
  from visit_after_boot_enabled [OF a nb ndb acc] bb show ?thesis by simp
qed

lemma visit_try_didDestroy:
  assumes t: "visit_try e path info bootOptions disableShoebox st = (ob, st')"
    and n: "no_timer e st" and nd: "\<not> r_instanceDestroyed (st_result st)"
  shows "st_didDestroy st' = st_didDestroy st"
proof -
  from t obtain oc sc where c: "clearPageStorage e st = (oc, sc)"
    and f: "frame e (\<lambda>sc. False) st sc" and l: "log_of sc = log_of st"
    and d: "(\<exists>err. oc = Inl err \<and> ob = Inl err \<and> st' = sc)
         \<or> visitRoute e path info bootOptions disableShoebox sc = (ob, st')"
    by (rule visit_try_split)
  from f n have k:
    "r_instanceDestroyed (st_result sc) = r_instanceDestroyed (st_result st)"
    "st_timer sc = st_timer st" "st_didDestroy sc = st_didDestroy st"
    unfolding frame_def by simp_all
  have nc: "no_timer e sc" using n k(2) by (simp add: no_timer_def)
  have ndc: "\<not> r_instanceDestroyed (st_result sc)" using nd k(1) by simp
  from d show ?thesis
  proof
    assume "\<exists>err. oc = Inl err \<and> ob = Inl err \<and> st' = sc"
    with k(3) show ?thesis by auto
  next
    assume "visitRoute e path info bootOptions disableShoebox sc = (ob, st')"
    from visitRoute_undisturbed [OF this nc ndc] k(3) show ?thesis by simp
  qed
qed

lemma visit_enabled:
  assumes v: "visit e app path options = (Inr res, app')" and ok: "r_error res = None"
    and en: "\<not> vo_disableShoebox options" and u: "undisturbed e options"
    and sc: "env_rejects e Call_setContent = None"
    and acc: "\<forall>key. env_rejects e (Call_shoebox key) = None"
  shows "\<exists>fi. r_fastbootInfo res = Some fi
           \<and> (\<forall>h. env_rejects e Call_runAppInstance = None
                    \<and> env_harvest e Call_runAppInstance = Inr h \<longrightarrow>
                  fi_shoebox fi = snd (snd (snd (env_app_returns e))))
           \<and> pg_beforeend (ea_page app')
               = map (\<lambda>(key, v). shoebox_element key (escapeJSONString (env_JSON_stringify e v)))
                   (case fi_shoebox fi of None \<Rightarrow> [] | Some sb \<Rightarrow> sb)"
  using v
proof (cases rule: visit_split)
  case (early err)
  then show ?thesis by simp
next
  case (tried info bootOptions st1 ob st3)
  from tried(7) u have n: "no_timer e st1" by simp
  from visit_try_didDestroy [OF tried(8) n tried(5)] tried(6)
  have nd: "\<not> st_didDestroy st3" by simp
  have "\<exists>w. ob = Inr w"
  proof (cases ob)
    case (Inl error)
    with tried(11) nd obtain r where "Inr res = (Inr r :: js_error + result)"
      and "r_error r = Some error" by blast
    with ok show ?thesis by simp
  next
    case (Inr w)
    then show ?thesis by blast
  qed
  then obtain w where o: "ob = Inr w" by blast
  with tried(10) have r: "res = st_result st3" by simp
  from tried(8) o en
  have t: "visit_try e path info bootOptions False st1 = (Inr w, st3)" by simp
  from tried(12) sc have b: "body_of st1 = []" by simp
  from visit_try_enabled [OF t n tried(5) acc] b r tried(9) show ?thesis
    by (simp add: body_of_def)
qed

section \<open>What a visit leaves of the boot\<close>




section \<open>Claims on the shoebox, the coordinator and the boot\<close>

lemma frame_finalize_any:
  assumes "finalize e st = (out, st')" and "P RemoveEmberApplication"
  shows "frame e P st st'"
proof (cases "r_finalized (st_result st)")
  case True
  with assms show ?thesis by (simp add: finalize_def frame_refl)
next
  case False
  obtain o1 s1 where r: "result_evaluate e Call_finalize RemoveEmberApplication () st = (o1, s1)"
    by (cases "result_evaluate e Call_finalize RemoveEmberApplication () st")
  have f: "frame e P st s1"
    using frame_result_evaluate [OF r, of P] assms(2) by simp
  from assms False r
  have "st' = s1 \<or> st' = s1\<lparr>st_result := (st_result s1)\<lparr>r_finalized := True\<rparr>\<rparr>"
    by (auto simp: finalize_def and_then_def split: sum.splits)
  moreover have "frame e P s1 (s1\<lparr>st_result := (st_result s1)\<lparr>r_finalized := True\<rparr>\<rparr>)"
    by (rule frame_set_result) simp
  ultimately show ?thesis using f by (auto intro: frame_trans)
qed

lemma visit_after_boot_disabled:
  assumes "visit_after_boot e path info bootOptions True st = (out, st')"
  shows "frame e (\<lambda>sc. \<not> is_ShoeboxScript sc) st st'"
proof -
  let ?P = "\<lambda>sc. \<not> is_ShoeboxScript sc"
  obtain o2 s2 where r:
    "result_evaluate e Call_runAppInstance (RunAppInstance path bootOptions (serialize info))
       (env_app_returns e) st = (o2, s2)"
    by (cases "result_evaluate e Call_runAppInstance
                 (RunAppInstance path bootOptions (serialize info)) (env_app_returns e) st")
  have 1: "frame e ?P st s2"
    using frame_result_evaluate [OF r, of ?P] by simp
  let ?ret = "case o2 of Inr (Some t) \<Rightarrow> t | _ \<Rightarrow> default_returnedInfo"
  have "frame e ?P s2 st'"
  proof (cases "reconstruct (env_cookie_parse e) ?ret")
    case (Inl err)
    with assms r have "st' = s2"
      by (simp add: visit_after_boot_def runAppInstance_def Let_def)
    then show ?thesis by (simp add: frame_refl)
  next
    case (Inr fastbootInfo)
    let ?s3 = "s2\<lparr>st_result := (st_result s2)\<lparr>r_fastbootInfo := Some fastbootInfo\<rparr>\<rparr>"
    let ?err = "case o2 of Inl err \<Rightarrow> Some err | Inr v \<Rightarrow> None"
    have 3: "frame e ?P s2 ?s3" by (rule frame_set_result) simp
    from assms r Inr have a:
      "and_then (finalize e ?s3)
            (\<lambda>u st5. (case ?err of Some err \<Rightarrow> (Inl err, st5) | None \<Rightarrow> (Inr (), st5)))
       = (out, st')"
      by (simp add: visit_after_boot_def runAppInstance_def Let_def and_then_def)
    have "frame e ?P ?s3 st'"
      using a
    proof (rule frame_and_then)
      fix o1 s5
      assume "finalize e ?s3 = (o1, s5)"
      then show "frame e ?P ?s3 s5" by (rule frame_finalize_any) simp
    next
      fix u s5
      assume "(case ?err of Some err \<Rightarrow> (Inl err, s5) | None \<Rightarrow> (Inr (), s5)) = (out, st')"
      then have "st' = s5" by (auto split: option.splits)
      then show "frame e ?P s5 st'" by (simp add: frame_refl)
    qed
    with 3 show ?thesis by (blast intro: frame_trans)
  qed
  with 1 show ?thesis by (blast intro: frame_trans)
qed

text \<open>
  C4.  Unless the shoebox is disabled, a visit that completes without an error (the
  page accepting the calls, no deadline firing) leaves at the end of the body, for
  every key of the shoebox of the info that the application returned, in iteration
  order, exactly one element
  \<open><script type="fastboot/shoebox" id="shoebox-{key}">{escapedJSON}</script>\<close>, and
  nothing else; \<open>createShoebox\<close> on its own appends these elements to what is there.
  The escaped JSON is the serialized value with each \<open>&\<close>, \<open><\<close>, \<open>>\<close>, U+2028 and
  U+2029 replaced by \<open>\u0026\<close>, \<open>\u003c\<close>, \<open>\u003e\<close>, \<open>\u2028\<close> and \<open>\u2029\<close>, and every
  other code unit as it is.  When the shoebox is disabled, the visit submits no shoebox
  script at all.
\<close>

theorem createShoebox_writes:
  \<open>(\<forall>sb u st'.
      fi_shoebox info = Some sb \<and> \<not> r_instanceDestroyed (st_result st)
      \<and> (\<forall>key. env_rejects e (Call_shoebox key) = None) \<and> no_timer e st
      \<and> createShoebox e info st = (Inr u, st') \<longrightarrow>
      pg_beforeend (ea_page (st_app st'))
        = pg_beforeend (ea_page (st_app st))
          @ map (\<lambda>(key, v). js ''<script type="fastboot/shoebox" id="shoebox-'' @ key
                              @ js ''">'' @ escaped (env_JSON_stringify e v)
                              @ js ''</script>'') sb)
   \<and> (\<forall>res app'.
         visit e app path options = (Inr res, app') \<and> r_error res = None
         \<and> \<not> vo_disableShoebox options \<and> undisturbed e options
         \<and> env_rejects e Call_setContent = None
         \<and> (\<forall>key. env_rejects e (Call_shoebox key) = None) \<longrightarrow>
         (\<exists>fi. r_fastbootInfo res = Some fi
             \<and> (\<forall>h. env_rejects e Call_runAppInstance = None
                      \<and> env_harvest e Call_runAppInstance = Inr h \<longrightarrow>
                    fi_shoebox fi = snd (snd (snd (env_app_returns e))))
             \<and> pg_beforeend (ea_page app')
                 = map (\<lambda>(key, v). js ''<script type="fastboot/shoebox" id="shoebox-'' @ key
                                     @ js ''">'' @ escaped (env_JSON_stringify e v)
                                     @ js ''</script>'')
                     (case fi_shoebox fi of None \<Rightarrow> [] | Some sb \<Rightarrow> sb)))
   \<and> escaped [] = []
   \<and> (\<forall>c s. escaped (c # s)
               = (if c = 38 then 92 # js ''u0026''
                  else if c = 60 then 92 # js ''u003c''
                  else if c = 62 then 92 # js ''u003e''
                  else if c = 0x2028 then 92 # js ''u2028''
                  else if c = 0x2029 then 92 # js ''u2029''
                  else [c]) @ escaped s)
   \<and> (\<forall>out st'.
         visit_after_boot e path' info' bootOptions True st = (out, st') \<longrightarrow>
         filter (\<lambda>x. is_ShoeboxScript (fst x)) (drop (length (log_of st)) (log_of st')) = [])\<close>
proof (intro conjI allI impI)
  fix sb u st'
  assume "fi_shoebox info = Some sb \<and> \<not> r_instanceDestroyed (st_result st)
      \<and> (\<forall>key. env_rejects e (Call_shoebox key) = None) \<and> no_timer e st
      \<and> createShoebox e info st = (Inr u, st')"
  then show \<open>pg_beforeend (ea_page (st_app st'))
        = pg_beforeend (ea_page (st_app st))
          @ map (\<lambda>(key, v). js ''<script type="fastboot/shoebox" id="shoebox-'' @ key
                              @ js ''">'' @ escaped (env_JSON_stringify e v)
                              @ js ''</script>'') sb\<close>
    using createShoebox_loop_inserts [of st e sb u st']
    by (auto simp: createShoebox_def escapeJSONString_escaped shoebox_element_def)
next
  fix res app'
  assume "visit e app path options = (Inr res, app') \<and> r_error res = None
         \<and> \<not> vo_disableShoebox options \<and> undisturbed e options
         \<and> env_rejects e Call_setContent = None
         \<and> (\<forall>key. env_rejects e (Call_shoebox key) = None)"
  then have v: "visit e app path options = (Inr res, app')" and ok: "r_error res = None"
    and en: "\<not> vo_disableShoebox options" and u: "undisturbed e options"
    and sc: "env_rejects e Call_setContent = None"
    and acc: "\<forall>key. env_rejects e (Call_shoebox key) = None"
    by simp_all
  from visit_enabled [OF v ok en u sc acc]
  show \<open>\<exists>fi. r_fastbootInfo res = Some fi
             \<and> (\<forall>h. env_rejects e Call_runAppInstance = None
                      \<and> env_harvest e Call_runAppInstance = Inr h \<longrightarrow>
                    fi_shoebox fi = snd (snd (snd (env_app_returns e))))
             \<and> pg_beforeend (ea_page app')
                 = map (\<lambda>(key, v). js ''<script type="fastboot/shoebox" id="shoebox-'' @ key
                                     @ js ''">'' @ escaped (env_JSON_stringify e v)
                                     @ js ''</script>'')
                     (case fi_shoebox fi of None \<Rightarrow> [] | Some sb \<Rightarrow> sb)\<close>
    by (simp add: escapeJSONString_escaped shoebox_element_def)
next
  show "escaped [] = []" by (simp add: escaped_def)
next
  fix c s
  show "escaped (c # s)
               = (if c = 38 then 92 # js ''u0026''
                  else if c = 60 then 92 # js ''u003c''
                  else if c = 62 then 92 # js ''u003e''
                  else if c = 0x2028 then 92 # js ''u2028''
                  else if c = 0x2029 then 92 # js ''u2029''
                  else [c]) @ escaped s"
    by (simp add: escaped_def unicode_escape_def hex_digit_def js_def)
next
  fix out st'
  assume "visit_after_boot e path' info' bootOptions True st = (out, st')"
  then have "frame e (\<lambda>sc. \<not> is_ShoeboxScript sc) st st'"
    by (rule visit_after_boot_disabled)
  then obtain xs where "log_of st' = log_of st @ xs"
    and "\<forall>x \<in> set xs. \<not> is_ShoeboxScript (fst x) \<and> \<not> is_SandboxGlobals (fst x)"
    by (rule frameE)
  then show "filter (\<lambda>x. is_ShoeboxScript (fst x)) (drop (length (log_of st)) (log_of st')) = []"
    by (simp add: filter_empty_conv)
qed

theorem createShoebox_writes_witness:
  \<open>pg_beforeend (ea_page (st_app (snd (createShoebox calm sample_info sample_state))))
     = [js ''<script type="fastboot/shoebox" id="shoebox-key1">"a'' @ [92]
          @ js ''u003cb"</script>'',
        js ''<script type="fastboot/shoebox" id="shoebox-key2">7</script>'']
   \<and> pg_beforeend (ea_page (snd (visit calm sample_app (js ''/'') (sample_options None))))
     = [js ''<script type="fastboot/shoebox" id="shoebox-key1">"a'' @ [92]
          @ js ''u003cb"</script>'',
        js ''<script type="fastboot/shoebox" id="shoebox-key2">7</script>'']
   \<and> escaped (js ''<&>'') = 92 # js ''u003c'' @ 92 # js ''u0026'' @ 92 # js ''u003e''
   \<and> filter (\<lambda>x. is_ShoeboxScript (fst x))
        (drop (length (log_of sample_state))
           (log_of (snd (visit_after_boot calm (js ''/'') sample_info
                           (buildBootOptions calm True) True sample_state)))) = []\<close>
proof -
  let ?app' = "snd (visit calm sample_app (js ''/'') (sample_options None))"
  have h1: "fi_shoebox sample_info = Some sample_shoebox"
    by (simp add: sample_info_def)
  have h2: "\<not> r_instanceDestroyed (st_result sample_state)"
    by (simp add: sample_state_def new_Result_def)
  have h3: "\<forall>key. env_rejects calm (Call_shoebox key) = None"
    by (simp add: calm_def)
  have h4: "no_timer calm sample_state"
    by (simp add: no_timer_def sample_state_def)
  have "fst (createShoebox calm sample_info sample_state) = Inr ()"
    by code_simp
  then obtain st' where c: "createShoebox calm sample_info sample_state = (Inr (), st')"
    by (cases "createShoebox calm sample_info sample_state") simp
  obtain out st2 where v: "visit_after_boot calm (js ''/'') sample_info
                           (buildBootOptions calm True) True sample_state = (out, st2)"
    by (cases "visit_after_boot calm (js ''/'') sample_info
                           (buildBootOptions calm True) True sample_state")
  have "case visit calm sample_app (js ''/'') (sample_options None) of
          (Inr r, a) \<Rightarrow> r_error r = None | (Inl err, a) \<Rightarrow> False"
    by code_simp
  then obtain res where
    w: "visit calm sample_app (js ''/'') (sample_options None) = (Inr res, ?app')"
    and ok: "r_error res = None"
    by (auto split: prod.splits sum.splits)
  have h5: "\<not> vo_disableShoebox (sample_options None)"
    "undisturbed calm (sample_options None)"
    "env_rejects calm Call_setContent = None"
    "env_rejects calm Call_runAppInstance = None"
    "env_harvest calm Call_runAppInstance = Inr sample_harvest"
    "snd (snd (snd (env_app_returns calm))) = Some sample_shoebox"
    by (simp_all add: sample_options_def undisturbed_def calm_def)
  have b: "pg_beforeend (ea_page (st_app sample_state)) = []"
    by (simp add: sample_state_def sample_app_def new_page_def)
  have e1: \<open>escaped (env_JSON_stringify calm (JStr (js ''a<b'')))
            = js ''"a'' @ [92] @ js ''u003cb"''\<close>
    by (simp add: calm_def escaped_def js_def unicode_escape_def hex_digit_def)
  have e2: "escaped (env_JSON_stringify calm (JNum 7)) = js ''7''"
    by (simp add: calm_def escaped_def js_def)
  have j: "js (s @ t) = js s @ js t" for s t
    by (simp add: js_def)
  note t = createShoebox_writes [of sample_info sample_state calm sample_app "js ''/''"
         "sample_options None" "js ''/''" sample_info "buildBootOptions calm True"]
  have p1: \<open>pg_beforeend (ea_page (st_app (snd (createShoebox calm sample_info sample_state))))
     = map (\<lambda>(key, v). js ''<script type="fastboot/shoebox" id="shoebox-'' @ key
                              @ js ''">'' @ escaped (env_JSON_stringify calm v)
                              @ js ''</script>'') sample_shoebox\<close>
    using t [THEN conjunct1, rule_format, of sample_shoebox "()" st'] h1 h2 h3 h4 c b
    by simp
  from t [THEN conjunct2, THEN conjunct1, rule_format, of res ?app'] w ok h5 h3
  have p2: \<open>pg_beforeend (ea_page ?app')
     = map (\<lambda>(key, v). js ''<script type="fastboot/shoebox" id="shoebox-'' @ key
                              @ js ''">'' @ escaped (env_JSON_stringify calm v)
                              @ js ''</script>'') sample_shoebox\<close>
    by auto
  have p3: "escaped (js ''<&>'') = 92 # js ''u003c'' @ 92 # js ''u0026'' @ 92 # js ''u003e''"
    using t [THEN conjunct2, THEN conjunct2, THEN conjunct1]
      t [THEN conjunct2, THEN conjunct2, THEN conjunct2, THEN conjunct1, rule_format]
    by (simp add: js_def)
  have p4: "filter (\<lambda>x. is_ShoeboxScript (fst x))
        (drop (length (log_of sample_state))
           (log_of (snd (visit_after_boot calm (js ''/'') sample_info
                           (buildBootOptions calm True) True sample_state)))) = []"
    using t [THEN conjunct2, THEN conjunct2, THEN conjunct2, THEN conjunct2, rule_format,
             of out st2] v
    by simp
  have q: \<open>map (\<lambda>(key, v). js ''<script type="fastboot/shoebox" id="shoebox-'' @ key
                              @ js ''">'' @ escaped (env_JSON_stringify calm v)
                              @ js ''</script>'') sample_shoebox
     = [js ''<script type="fastboot/shoebox" id="shoebox-key1">"a'' @ [92]
          @ js ''u003cb"</script>'',
        js ''<script type="fastboot/shoebox" id="shoebox-key2">7</script>'']\<close>
    by (simp add: sample_shoebox_def e1 e2) (simp add: js_def)
  from p1 p2 p3 p4 show ?thesis
    unfolding q by (intro conjI)
qed

text \<open>
  C9.  When the visit of the instance has produced a result, the coordinator rejects
  with the error of the result if resilient mode is off and the result carries one,
  and resolves with the result otherwise, also when the result carries an error.
\<close>

theorem coordinator_rethrows:
  assumes "acquire e new_page_rejects pb = (Resolved (An_instance app), pb1)"
    and "visit e app path options = (Inr res, app')"
  shows
    "(\<not> (case vo_resilient options of None \<Rightarrow> pb_resilient pb | Some b \<Rightarrow> b) \<longrightarrow>
        (\<forall>err. r_error res = Some err \<longrightarrow>
           fst (PowerBoot_visit e new_page_rejects pb path options) = Rejected err))
     \<and> ((case vo_resilient options of None \<Rightarrow> pb_resilient pb | Some b \<Rightarrow> b) \<or> r_error res = None \<longrightarrow>
          fst (PowerBoot_visit e new_page_rejects pb path options) = Resolved res)"
  using assms by (auto simp: PowerBoot_visit_def Let_def)

theorem coordinator_rethrows_witness:
  "fst (PowerBoot_visit failing None sample_powerboot (js ''/'') (sample_options None))
     = Rejected (Error (Some (js ''boom'')))
   \<and> (\<exists>res. fst (PowerBoot_visit failing None sample_powerboot (js ''/'')
                   ((sample_options None)\<lparr>vo_resilient := Some True\<rparr>)) = Resolved res
          \<and> r_error res = Some (Error (Some (js ''boom''))))"
proof -
  have a: "acquire failing None sample_powerboot
           = (Resolved (An_instance sample_app), sample_powerboot\<lparr>pb_instance := Some sample_app\<rparr>)"
    by code_simp
  have "case visit failing sample_app (js ''/'') (sample_options None) of
          (Inr res, app') \<Rightarrow> r_error res = Some (Error (Some (js ''boom'')))
        | (Inl err, app') \<Rightarrow> False"
    by code_simp
  then obtain res app' where
    v: "visit failing sample_app (js ''/'') (sample_options None) = (Inr res, app')"
    and r: "r_error res = Some (Error (Some (js ''boom'')))"
    by (auto split: prod.splits sum.splits)
  have "case visit failing sample_app (js ''/'') ((sample_options None)\<lparr>vo_resilient := Some True\<rparr>) of
          (Inr res, app') \<Rightarrow> r_error res = Some (Error (Some (js ''boom'')))
        | (Inl err, app') \<Rightarrow> False"
    by code_simp
  then obtain res2 app2 where
    v2: "visit failing sample_app (js ''/'') ((sample_options None)\<lparr>vo_resilient := Some True\<rparr>) = (Inr res2, app2)"
    and r2: "r_error res2 = Some (Error (Some (js ''boom'')))"
    by (auto split: prod.splits sum.splits)
  have n: "vo_resilient (sample_options None) = None" "\<not> pb_resilient sample_powerboot"
    by (simp_all add: sample_options_def sample_powerboot_def)
  from coordinator_rethrows [OF a v] coordinator_rethrows [OF a v2] r r2 n show ?thesis
    by simp
qed




text \<open>
  C1 fails on the code.  A first visit with a deadline of 5 ms, whose timer fires while
  the application is visited, ends with the error of the forced destruction; the timer
  has cleared \<open>_hasInitialized\<close>, but \<open>hasInitialized\<close>, which \<open>_visitRoute\<close>
  consults, is still set, and the reload has emptied \<open>window\<close>.  The next visit of
  the instance submits no script of the boot-time injection, and \<open>window\<close> stays
  without the sandbox globals.
\<close>

theorem deadline_leaves_hasInitialized:
  "(case visit overdue sample_app (js ''/'') (sample_options (Some 5)) of
      (Inl err, app1) \<Rightarrow> False
    | (Inr res, app1) \<Rightarrow>
        r_error res = Some (destroyed_error 5)
        \<and> ea_hasInitialized app1 \<and> \<not> ea_u_hasInitialized app1
        \<and> pg_window (ea_page app1) = [] \<and> injections app1 = 1
        \<and> (case visit calm app1 (js ''/'') (sample_options None) of
              (out2, app2) \<Rightarrow>
                injections app2 = 1
                \<and> filter (\<lambda>x. is_boot_script (fst x))
                     (drop (length (pg_log (ea_page app1))) (pg_log (ea_page app2))) = []
                \<and> pg_window (ea_page app2) = []))"
  by code_simp

end
